theory Spec2Isabelle
  imports Complex_Main "HOL-Library.Log_Nat"
begin

section \<open>Data model (shared/schema.ts)\<close>

text \<open>
  The three tables of the schema, one record per row type. Timestamps are points of an
  abstract clock. Columns that no modelled operation reads (\<open>firstName\<close>, \<open>lastName\<close>,
  \<open>profileImageUrl\<close>) are left out. An \<open>integer\<close> column holds 32-bit values: a number
  outside that range is refused wherever a statement binds it to such a column. The
  length limits of the \<open>varchar\<close> columns are not modelled: no route hands the storage
  layer a name or role that its schema or its list of roles has not bounded.
\<close>

type_synonym time = nat

record user =
  u_id :: string
  u_email :: "string option"
  u_name :: "string option"
  u_address :: "string option"
  u_password :: "string option"
  u_role :: string
  u_createdAt :: time
  u_updatedAt :: time

record store =
  s_id :: int
  s_name :: string
  s_email :: string
  s_address :: string
  s_ownerId :: "string option"
  s_createdAt :: time
  s_updatedAt :: time

record rating =
  r_id :: int
  r_userId :: string
  r_storeId :: int
  r_rating :: int
  r_createdAt :: time
  r_updatedAt :: time

text \<open>
  The database: the rows of each table in insertion order, and the last value handed out
  by each \<open>serial\<close> sequence.
\<close>

record db =
  users :: "user list"
  stores :: "store list"
  ratings :: "rating list"
  stores_seq :: int
  ratings_seq :: int

definition empty_db :: db where
  "empty_db = \<lparr>users = [], stores = [], ratings = [], stores_seq = 0, ratings_seq = 0\<rparr>"

text \<open>Errors the database raises; the storage layer lets them propagate as exceptions.\<close>

datatype db_error =
  UniqueViolation | ForeignKeyViolation | InvalidInput | NumericValueOutOfRange
  | SequenceLimitExceeded

text \<open>The range of an \<open>integer\<close> column.\<close>

definition int4 :: "int \<Rightarrow> bool" where
  "int4 n = (- 2147483648 \<le> n \<and> n \<le> 2147483647)"

text \<open>
  A JavaScript \<open>number\<close> bound to an \<open>integer\<close> column: PostgreSQL accepts it only when
  it is integral and within the range of the column, and otherwise fails the statement
  before it runs. Numbers are modelled as rationals.
\<close>

definition integral :: "rat \<Rightarrow> bool" where
  "integral q = (of_int \<lfloor>q\<rfloor> = q)"

definition pg_integer :: "rat \<Rightarrow> int option" where
  "pg_integer q = (if integral q \<and> int4 \<lfloor>q\<rfloor> then Some \<lfloor>q\<rfloor> else None)"

section \<open>Storage layer (server/storage.ts)\<close>

subsection \<open>Users\<close>

definition getUser :: "string \<Rightarrow> db \<Rightarrow> user option" where
  "getUser uid d = find (\<lambda>u. u_id u = uid) (users d)"

definition getUserByEmail :: "string \<Rightarrow> db \<Rightarrow> user option" where
  "getUserByEmail e d = find (\<lambda>u. u_email u = Some e) (users d)"

text \<open>
  Library code outside the repository is a parameter of the model: the two functions of
  \<open>bcrypt\<close> (\<open>bcrypt.hash\<close> salts at random; the parameter stands for one run of it),
  zod's email format, and whether the check drizzle-zod derives for an \<open>integer\<close>
  column, a \<open>z.number()\<close>, also demands an integer within the range of the column (it
  does from some library version on).
\<close>

record env =
  bcrypt_hash :: "string \<Rightarrow> string"
  bcrypt_compare :: "string \<Rightarrow> string \<Rightarrow> bool"
  zod_email :: "string \<Rightarrow> bool"
  zod_int_strict :: bool

text \<open>\<open>InsertUser\<close>, the output type of \<open>insertUserSchema\<close>.\<close>

record insert_user =
  iu_name :: string
  iu_email :: string
  iu_address :: string
  iu_password :: string
  iu_role :: string

text \<open>
  \<open>createLocalUser\<close>: the id is \<open>local_<Date.now()>_<random>\<close>, passed in as \<open>newId\<close>.
  The insert fails on the primary key and on the unique email.
\<close>

definition createLocalUser ::
  "env \<Rightarrow> insert_user \<Rightarrow> string \<Rightarrow> time \<Rightarrow> db \<Rightarrow> (db_error + user) \<times> db" where
  "createLocalUser e userData newId now d =
     (let hashedPassword = bcrypt_hash e (iu_password userData)
      in if list_ex (\<lambda>u. u_id u = newId) (users d) then (Inl UniqueViolation, d)
         else if list_ex (\<lambda>u. u_email u = Some (iu_email userData)) (users d)
           then (Inl UniqueViolation, d)
         else
           (let u = \<lparr>u_id = newId, u_email = Some (iu_email userData),
                     u_name = Some (iu_name userData), u_address = Some (iu_address userData),
                     u_password = Some hashedPassword, u_role = iu_role userData,
                     u_createdAt = now, u_updatedAt = now\<rparr>
            in (Inr u, d\<lparr>users := users d @ [u]\<rparr>)))"

text \<open>\<open>updateUserRole\<close> returns the updated row, or \<open>undefined\<close> when no row has the id.\<close>

definition updateUserRole :: "string \<Rightarrow> string \<Rightarrow> time \<Rightarrow> db \<Rightarrow> user option \<times> db" where
  "updateUserRole uid role now d =
     (let upd = (\<lambda>u. if u_id u = uid then u\<lparr>u_role := role, u_updatedAt := now\<rparr> else u)
      in (map_option upd (getUser uid d), d\<lparr>users := map upd (users d)\<rparr>))"

text \<open>
  \<open>deleteUser\<close>: the foreign keys of \<open>stores.owner_id\<close> and \<open>ratings.user_id\<close> are declared
  without an ON DELETE action, so removing a referenced row is refused.
\<close>

definition deleteUser :: "string \<Rightarrow> db \<Rightarrow> (db_error + unit) \<times> db" where
  "deleteUser uid d =
     (if list_ex (\<lambda>u. u_id u = uid) (users d)
         \<and> (list_ex (\<lambda>s. s_ownerId s = Some uid) (stores d)
              \<or> list_ex (\<lambda>r. r_userId r = uid) (ratings d))
      then (Inl ForeignKeyViolation, d)
      else (Inr (), d\<lparr>users := filter (\<lambda>u. u_id u \<noteq> uid) (users d)\<rparr>))"

text \<open>\<open>!user?.password\<close> holds for a missing user, a missing password and the empty string.\<close>

definition updatePassword :: "env \<Rightarrow> string \<Rightarrow> string \<Rightarrow> string \<Rightarrow> time \<Rightarrow> db \<Rightarrow> bool \<times> db" where
  "updatePassword e userId currentPassword newPassword now d =
     (case getUser userId d of
        None \<Rightarrow> (False, d)
      | Some u \<Rightarrow>
          (case u_password u of
             None \<Rightarrow> (False, d)
           | Some h \<Rightarrow>
               if h = [] then (False, d)
               else if \<not> bcrypt_compare e currentPassword h then (False, d)
               else
                 (let hashedPassword = bcrypt_hash e newPassword;
                      upd = (\<lambda>x. if u_id x = userId
                                 then x\<lparr>u_password := Some hashedPassword, u_updatedAt := now\<rparr>
                                 else x)
                  in (True, d\<lparr>users := map upd (users d)\<rparr>))))"

subsection \<open>Stores\<close>

text \<open>\<open>InsertStore\<close> and \<open>Partial<InsertStore>\<close> (a field that is absent is \<open>None\<close>).\<close>

record insert_store =
  is_name :: string
  is_email :: string
  is_address :: string
  is_ownerId :: "string option"

record partial_store =
  ps_name :: "string option"
  ps_email :: "string option"
  ps_address :: "string option"
  ps_ownerId :: "string option option"

definition owner_ok :: "string option \<Rightarrow> db \<Rightarrow> bool" where
  "owner_ok oid d = (case oid of None \<Rightarrow> True | Some uid \<Rightarrow> list_ex (\<lambda>u. u_id u = uid) (users d))"

text \<open>
  \<open>createStore\<close>: the sequence of a \<open>serial\<close> column issues no value beyond the range of
  the column.
\<close>

definition createStore :: "insert_store \<Rightarrow> time \<Rightarrow> db \<Rightarrow> (db_error + store) \<times> db" where
  "createStore storeData now d =
     (let newid = stores_seq d + 1;
          d1 = d\<lparr>stores_seq := newid\<rparr>
      in if \<not> int4 newid then (Inl SequenceLimitExceeded, d)
         else if list_ex (\<lambda>s. s_id s = newid) (stores d) then (Inl UniqueViolation, d1)
         else if \<not> owner_ok (is_ownerId storeData) d then (Inl ForeignKeyViolation, d1)
         else
           (let s = \<lparr>s_id = newid, s_name = is_name storeData, s_email = is_email storeData,
                     s_address = is_address storeData, s_ownerId = is_ownerId storeData,
                     s_createdAt = now, s_updatedAt = now\<rparr>
            in (Inr s, d1\<lparr>stores := stores d @ [s]\<rparr>)))"

text \<open>
  The functions below take a store id of type \<open>number\<close>, here an integer (the routes pass
  \<open>parseInt\<close> of a path parameter). An id outside the range of the column fails the query.
\<close>

definition getStoreById :: "int \<Rightarrow> db \<Rightarrow> db_error + store option" where
  "getStoreById sid d =
     (if \<not> int4 sid then Inl NumericValueOutOfRange
      else Inr (find (\<lambda>s. s_id s = sid) (stores d)))"

definition getStoresByOwner :: "string \<Rightarrow> db \<Rightarrow> store list" where
  "getStoresByOwner ownerId d = filter (\<lambda>s. s_ownerId s = Some ownerId) (stores d)"

definition set_store :: "partial_store \<Rightarrow> time \<Rightarrow> store \<Rightarrow> store" where
  "set_store p now s =
     s\<lparr>s_name := (case ps_name p of None \<Rightarrow> s_name s | Some x \<Rightarrow> x),
       s_email := (case ps_email p of None \<Rightarrow> s_email s | Some x \<Rightarrow> x),
       s_address := (case ps_address p of None \<Rightarrow> s_address s | Some x \<Rightarrow> x),
       s_ownerId := (case ps_ownerId p of None \<Rightarrow> s_ownerId s | Some x \<Rightarrow> x),
       s_updatedAt := now\<rparr>"

definition updateStore ::
  "int \<Rightarrow> partial_store \<Rightarrow> time \<Rightarrow> db \<Rightarrow> (db_error + store option) \<times> db" where
  "updateStore sid storeData now d =
     (let upd = (\<lambda>s. if s_id s = sid then set_store storeData now s else s)
      in if \<not> int4 sid then (Inl NumericValueOutOfRange, d)
         else if list_ex (\<lambda>s. s_id s = sid) (stores d)
            \<and> \<not> (case ps_ownerId storeData of None \<Rightarrow> True | Some oid \<Rightarrow> owner_ok oid d)
         then (Inl ForeignKeyViolation, d)
         else (Inr (map_option upd (find (\<lambda>s. s_id s = sid) (stores d))),
               d\<lparr>stores := map upd (stores d)\<rparr>))"

text \<open>
  \<open>deleteStore\<close>: \<open>ratings.store_id\<close> references \<open>stores.id\<close> without an ON DELETE action,
  so a store that still has ratings cannot be removed.
\<close>

definition deleteStore :: "int \<Rightarrow> db \<Rightarrow> (db_error + unit) \<times> db" where
  "deleteStore sid d =
     (if \<not> int4 sid then (Inl NumericValueOutOfRange, d)
      else if list_ex (\<lambda>s. s_id s = sid) (stores d)
              \<and> list_ex (\<lambda>r. r_storeId r = sid) (ratings d)
      then (Inl ForeignKeyViolation, d)
      else (Inr (), d\<lparr>stores := filter (\<lambda>s. s_id s \<noteq> sid) (stores d)\<rparr>))"

subsection \<open>Ratings\<close>

text \<open>\<open>InsertRating\<close>: the parsed request data; both numeric fields have type \<open>number\<close>.\<close>

record insert_rating =
  ir_userId :: string
  ir_storeId :: rat
  ir_rating :: rat

definition rating_key :: "rating \<Rightarrow> string \<times> int" where
  "rating_key r = (r_userId r, r_storeId r)"

text \<open>
  \<open>createOrUpdateRating\<close> is one statement, INSERT ... ON CONFLICT (user_id, store_id)
  DO UPDATE SET rating, updated_at RETURNING *. A number that the \<open>integer\<close> columns do
  not take fails the statement before it runs. Otherwise the sequence is advanced before
  the conflict check and keeps its value when the statement fails. A conflicting row is
  updated in place; otherwise the new row must satisfy the primary key and both foreign
  keys. The sequence of rating ids is taken not to run out.
\<close>

definition createOrUpdateRating ::
  "insert_rating \<Rightarrow> time \<Rightarrow> db \<Rightarrow> (db_error + rating) \<times> db" where
  "createOrUpdateRating ratingData now d =
     (case (pg_integer (ir_storeId ratingData), pg_integer (ir_rating ratingData)) of
        (Some sid, Some v) \<Rightarrow>
          (let k = (ir_userId ratingData, sid);
               newid = ratings_seq d + 1;
               d1 = d\<lparr>ratings_seq := newid\<rparr>;
               upd = (\<lambda>r. if rating_key r = k
                          then r\<lparr>r_rating := v, r_updatedAt := now\<rparr> else r)
           in case find (\<lambda>r. rating_key r = k) (ratings d) of
                Some r0 \<Rightarrow> (Inr (upd r0), d1\<lparr>ratings := map upd (ratings d)\<rparr>)
              | None \<Rightarrow>
                  if list_ex (\<lambda>r. r_id r = newid) (ratings d) then (Inl UniqueViolation, d1)
                  else if getUser (ir_userId ratingData) d = None
                          \<or> \<not> list_ex (\<lambda>s. s_id s = sid) (stores d)
                    then (Inl ForeignKeyViolation, d1)
                  else
                    (let r = \<lparr>r_id = newid, r_userId = ir_userId ratingData, r_storeId = sid,
                              r_rating = v, r_createdAt = now, r_updatedAt = now\<rparr>
                     in (Inr r, d1\<lparr>ratings := ratings d @ [r]\<rparr>)))
      | _ \<Rightarrow> (Inl InvalidInput, d))"

definition getUserRatingForStore :: "string \<Rightarrow> int \<Rightarrow> db \<Rightarrow> db_error + rating option" where
  "getUserRatingForStore uid sid d =
     (if \<not> int4 sid then Inl NumericValueOutOfRange
      else Inr (find (\<lambda>r. r_userId r = uid \<and> r_storeId r = sid) (ratings d)))"

text \<open>
  \<open>getRatingsByStore\<close>: the store's ratings joined with their authors (an inner join: a
  rating without a user row drops out), most recent first. SQL leaves the order of equal
  timestamps open; the model keeps table order among them.
\<close>

record user_view =
  uv_id :: string
  uv_name :: "string option"
  uv_email :: "string option"

definition view_of :: "user \<Rightarrow> user_view" where
  "view_of u = \<lparr>uv_id = u_id u, uv_name = u_name u, uv_email = u_email u\<rparr>"

definition getRatingsByStore :: "int \<Rightarrow> db \<Rightarrow> db_error + (rating \<times> user_view) list" where
  "getRatingsByStore sid d =
     (if \<not> int4 sid then Inl NumericValueOutOfRange
      else Inr (sort_key (\<lambda>(r, u). - int (r_createdAt r))
        (List.map_filter (\<lambda>r. map_option (\<lambda>u. (r, view_of u)) (getUser (r_userId r) d))
           (filter (\<lambda>r. r_storeId r = sid) (ratings d)))))"

subsection \<open>Store statistics\<close>

text \<open>
  A JavaScript value: what a JSON request body holds, and what the functions of
  JavaScript used below return. A number is the rational it denotes. Objects and arrays
  carry no content.
\<close>

datatype jsval = JUndefined | JNull | JBool bool | JNum rat | JNaN | JStr string | JObject

text \<open>
  PostgreSQL's AVG over an \<open>integer\<close> column divides the sum by the count as \<open>numeric\<close>
  values. The quotient is rounded, half away from zero, to a number of decimal places
  chosen from the base-10000 digits of the two operands so that at least 16 significant
  digits are kept (\<open>select_div_scale\<close>): the weight of an operand is the position of its
  leading base-10000 digit.
\<close>

definition nweight :: "int \<Rightarrow> int" where
  "nweight a = (if a = 0 then 0 else int (floorlog 10000 (nat \<bar>a\<bar>)) - 1)"

definition first_digit :: "int \<Rightarrow> int" where
  "first_digit a = (if a = 0 then 0 else \<bar>a\<bar> div 10000 ^ nat (nweight a))"

definition select_div_scale :: "int \<Rightarrow> int \<Rightarrow> nat" where
  "select_div_scale a b =
     (let qweight = nweight a - nweight b - (if first_digit a \<le> first_digit b then 1 else 0)
      in nat (min 1000 (max 0 (16 - qweight * 4))))"

definition round_scale :: "nat \<Rightarrow> rat \<Rightarrow> rat" where
  "round_scale s x = sgn x * of_int \<lfloor>\<bar>x\<bar> * 10 ^ s + 1 / 2\<rfloor> / 10 ^ s"

definition numeric_div :: "int \<Rightarrow> int \<Rightarrow> rat" where
  "numeric_div a b = round_scale (select_div_scale a b) (of_int a / of_int b)"

text \<open>AVG of no rows is NULL.\<close>

definition sql_avg :: "int list \<Rightarrow> rat option" where
  "sql_avg vs = (if vs = [] then None else Some (numeric_div (sum_list vs) (int (length vs))))"

definition coalesce0 :: "rat option \<Rightarrow> rat option" where
  "coalesce0 x = (case x of None \<Rightarrow> Some 0 | Some q \<Rightarrow> Some q)"

text \<open>
  The driver hands a \<open>numeric\<close> or \<open>bigint\<close> result to JavaScript as its decimal text, and
  NULL as \<open>null\<close>. \<open>Number\<close> of a decimal text is the double nearest to it, ties going to
  the even significand; \<open>Number(null)\<close> is 0. A double is modelled by the rational it
  denotes, for magnitudes in the range of normal doubles (an average of \<open>integer\<close> values
  and a row count are in that range).
\<close>

definition pow2 :: "int \<Rightarrow> rat" where
  "pow2 k = (if 0 \<le> k then 2 ^ nat k else 1 / 2 ^ nat (- k))"

text \<open>The binary exponent \<open>e\<close> of a positive rational: \<open>2^e \<le> q < 2^(e+1)\<close>.\<close>

definition binary_exponent :: "rat \<Rightarrow> int" where
  "binary_exponent q =
     (case quotient_of q of (a, b) \<Rightarrow>
        let k = bitlen a - bitlen b in if pow2 k \<le> q then k else k - 1)"

definition round_half_even :: "rat \<Rightarrow> int" where
  "round_half_even x =
     (let f = \<lfloor>x\<rfloor>; r = x - of_int f
      in if r < 1 / 2 then f else if 1 / 2 < r then f + 1 else if even f then f else f + 1)"

definition to_double :: "rat \<Rightarrow> rat" where
  "to_double q =
     (if q = 0 then 0
      else let ulp = pow2 (binary_exponent \<bar>q\<bar> - 52)
           in sgn q * of_int (round_half_even (\<bar>q\<bar> / ulp)) * ulp)"

definition js_Number :: "rat option \<Rightarrow> jsval" where
  "js_Number x = (case x of None \<Rightarrow> JNum 0 | Some q \<Rightarrow> JNum (to_double q))"

text \<open>\<open>x || 0\<close>: 0 when \<open>x\<close> is falsy, else \<open>x\<close>.\<close>

definition js_or_0 :: "jsval \<Rightarrow> jsval" where
  "js_or_0 x =
     (if x = JUndefined \<or> x = JNull \<or> x = JBool False \<or> x = JNum 0 \<or> x = JNaN \<or> x = JStr []
      then JNum 0 else x)"

text \<open>
  \<open>getStoreStats\<close>: COALESCE(AVG(rating), 0) and COUNT(id) over the store's rows, each
  passed through \<open>Number(x) || 0\<close>.
\<close>

record store_stats =
  averageRating :: jsval
  totalRatings :: jsval

definition getStoreStats :: "int \<Rightarrow> db \<Rightarrow> db_error + store_stats" where
  "getStoreStats sid d =
     (if \<not> int4 sid then Inl NumericValueOutOfRange
      else
        (let rows = filter (\<lambda>r. r_storeId r = sid) (ratings d)
         in Inr \<lparr>averageRating = js_or_0 (js_Number (coalesce0 (sql_avg (map r_rating rows)))),
                 totalRatings = js_or_0 (js_Number (Some (of_nat (length rows))))\<rparr>))"

section \<open>HTTP layer (server/routes.ts)\<close>

text \<open>
  \<open>req.session\<close>, the object express-session attaches to a request. A request without a
  valid session cookie carries the empty session.
\<close>

record session =
  userId :: "string option"
  userRole :: "string option"

definition no_session :: session where
  "no_session = \<lparr>userId = None, userRole = None\<rparr>"

text \<open>
  Responses: the status code and the JSON body. A zod failure is reported with the list
  of its issues, each a field name and a message (the issue code where the schema gives
  no message).
\<close>

datatype body =
    Message string
  | ValidationErrors "(string \<times> string) list"
  | UserSummary string "string option" "string option" string
  | UserRow "user option"
  | RatingRow rating
  | RatingsAndStats "(rating \<times> user_view) list" store_stats

datatype response = Response (status: nat) (payload: body)

definition internal_error :: response where
  "internal_error = Response 500 (Message ''Internal server error'')"

subsection \<open>Middleware\<close>

text \<open>
  \<open>requireAuth\<close> either answers 401 or loads the user row named by the session and hands
  it on as \<open>currentUser\<close>. \<open>!session?.userId\<close> also holds for the empty string.
\<close>

definition requireAuth :: "session \<Rightarrow> db \<Rightarrow> response + user" where
  "requireAuth sess d =
     (case userId sess of
        None \<Rightarrow> Inl (Response 401 (Message ''Unauthorized''))
      | Some uid \<Rightarrow>
          if uid = [] then Inl (Response 401 (Message ''Unauthorized''))
          else (case getUser uid d of
                  None \<Rightarrow> Inl (Response 401 (Message ''User not found''))
                | Some u \<Rightarrow> Inr u))"

definition requireRole :: "string list \<Rightarrow> user \<Rightarrow> response + unit" where
  "requireRole roles u =
     (if u_role u \<in> set roles then Inr ()
      else Inl (Response 403 (Message ''Insufficient permissions'')))"

text \<open>
  A route \<open>app.METHOD(path, requireAuth, handler)\<close> and the further link
  \<open>requireRole(roles)\<close> of the chain: the handler runs only if the middleware before it
  called \<open>next()\<close>.
\<close>

definition authenticated ::
  "(user \<Rightarrow> db \<Rightarrow> response \<times> db) \<Rightarrow> session \<Rightarrow> db \<Rightarrow> response \<times> db" where
  "authenticated handler sess d =
     (case requireAuth sess d of Inl r \<Rightarrow> (r, d) | Inr u \<Rightarrow> handler u d)"

definition with_role ::
  "string list \<Rightarrow> (user \<Rightarrow> db \<Rightarrow> response \<times> db) \<Rightarrow> user \<Rightarrow> db \<Rightarrow> response \<times> db" where
  "with_role roles handler u d =
     (case requireRole roles u of Inl r \<Rightarrow> (r, d) | Inr _ \<Rightarrow> handler u d)"

subsection \<open>Login and registration\<close>

text \<open>
  \<open>authenticateLocal\<close> (POST /api/auth/login), for bodies whose \<open>email\<close> and \<open>password\<close> are
  strings or absent. On success it writes the user's id and role into the session.
\<close>

definition authenticateLocal ::
  "env \<Rightarrow> string option \<Rightarrow> string option \<Rightarrow> session \<Rightarrow> db \<Rightarrow> response \<times> session" where
  "authenticateLocal e email password sess d =
     (case (email, password) of
        (Some em, Some pw) \<Rightarrow>
          if em = [] \<or> pw = [] then (Response 400 (Message ''Email and password required''), sess)
          else (case getUserByEmail em d of
                  None \<Rightarrow> (Response 401 (Message ''Invalid credentials''), sess)
                | Some u \<Rightarrow>
                    (case u_password u of
                       None \<Rightarrow> (Response 401 (Message ''Invalid credentials''), sess)
                     | Some h \<Rightarrow>
                         if h = [] then (Response 401 (Message ''Invalid credentials''), sess)
                         else if \<not> bcrypt_compare e pw h
                           then (Response 401 (Message ''Invalid credentials''), sess)
                         else (Response 200 (UserSummary (u_id u) (u_name u) (u_email u) (u_role u)),
                               sess\<lparr>userId := Some (u_id u), userRole := Some (u_role u)\<rparr>)))
      | _ \<Rightarrow> (Response 400 (Message ''Email and password required''), sess))"

text \<open>
  \<open>insertUserSchema\<close>. String lengths count the characters of the model's strings. The two
  regular expressions of the password rule are character classes.
\<close>

record register_body =
  rb_name :: jsval
  rb_email :: jsval
  rb_address :: jsval
  rb_password :: jsval
  rb_role :: jsval

definition is_upper :: "char \<Rightarrow> bool" where
  "is_upper c = (c \<in> set ''ABCDEFGHIJKLMNOPQRSTUVWXYZ'')"

definition is_special :: "char \<Rightarrow> bool" where
  "is_special c = (c \<in> set ''!@#$%^&*(),.?\":{}|<>'')"

definition password_issues :: "string \<Rightarrow> string \<Rightarrow> (string \<times> string) list" where
  "password_issues field s =
     (if length s < 8 then [(field, ''Password must be at least 8 characters'')] else []) @
     (if 16 < length s then [(field, ''Password must not exceed 16 characters'')] else []) @
     (if list_ex is_upper s then []
      else [(field, ''Password must contain at least one uppercase letter'')]) @
     (if list_ex is_special s then []
      else [(field, ''Password must contain at least one special character'')])"

definition insertUserSchema_issues :: "env \<Rightarrow> register_body \<Rightarrow> (string \<times> string) list" where
  "insertUserSchema_issues e b =
     (case rb_email b of
        JStr s \<Rightarrow> if zod_email e s then [] else [(''email'', ''Invalid email format'')]
      | _ \<Rightarrow> [(''email'', ''invalid_type'')]) @
     (case rb_name b of
        JStr s \<Rightarrow>
          (if length s < 20 then [(''name'', ''Name must be at least 20 characters'')] else []) @
          (if 60 < length s then [(''name'', ''Name must not exceed 60 characters'')] else [])
      | _ \<Rightarrow> [(''name'', ''invalid_type'')]) @
     (case rb_address b of
        JStr s \<Rightarrow>
          if 400 < length s then [(''address'', ''Address must not exceed 400 characters'')] else []
      | _ \<Rightarrow> [(''address'', ''invalid_type'')]) @
     (case rb_password b of
        JStr s \<Rightarrow> password_issues ''password'' s
      | _ \<Rightarrow> [(''password'', ''invalid_type'')]) @
     (case rb_role b of
        JStr s \<Rightarrow> if s \<in> set [''admin'', ''normal'', ''store_owner''] then []
                  else [(''role'', ''invalid_enum_value'')]
      | _ \<Rightarrow> [(''role'', ''invalid_type'')])"

text \<open>The string inside a value that passed a \<open>z.string()\<close> check.\<close>

definition str_of :: "jsval \<Rightarrow> string" where
  "str_of v = (case v of JStr s \<Rightarrow> s | _ \<Rightarrow> [])"

definition insertUserSchema_parse ::
  "env \<Rightarrow> register_body \<Rightarrow> (string \<times> string) list + insert_user" where
  "insertUserSchema_parse e b =
     (let issues = insertUserSchema_issues e b
      in if issues = []
         then Inr \<lparr>iu_name = str_of (rb_name b), iu_email = str_of (rb_email b),
                   iu_address = str_of (rb_address b), iu_password = str_of (rb_password b),
                   iu_role = str_of (rb_role b)\<rparr>
         else Inl issues)"

text \<open>
  POST /api/auth/register. The parsed role is overwritten with \<open>normal\<close> before the user
  is created; the session then receives the id and role of the created row.
\<close>

definition post_register ::
  "env \<Rightarrow> register_body \<Rightarrow> string \<Rightarrow> time \<Rightarrow> session \<Rightarrow> db \<Rightarrow> response \<times> session \<times> db" where
  "post_register e b newId now sess d =
     (case insertUserSchema_parse e b of
        Inl issues \<Rightarrow> (Response 400 (ValidationErrors issues), sess, d)
      | Inr userData \<Rightarrow>
          (case getUserByEmail (iu_email userData) d of
             Some existingUser \<Rightarrow>
               (Response 400 (Message ''User already exists with this email''), sess, d)
           | None \<Rightarrow>
               (case createLocalUser e (userData\<lparr>iu_role := ''normal''\<rparr>) newId now d of
                  (Inl err, d') \<Rightarrow> (internal_error, sess, d')
                | (Inr u, d') \<Rightarrow>
                    (Response 201 (UserSummary (u_id u) (u_name u) (u_email u) (u_role u)),
                     sess\<lparr>userId := Some (u_id u), userRole := Some (u_role u)\<rparr>, d'))))"

subsection \<open>Password change\<close>

text \<open>\<open>updatePasswordSchema\<close> and PUT /api/auth/password.\<close>

record password_body =
  pb_currentPassword :: jsval
  pb_newPassword :: jsval

definition updatePasswordSchema_issues :: "password_body \<Rightarrow> (string \<times> string) list" where
  "updatePasswordSchema_issues b =
     (case pb_currentPassword b of
        JStr s \<Rightarrow> if length s < 1 then [(''currentPassword'', ''Current password is required'')]
                  else []
      | _ \<Rightarrow> [(''currentPassword'', ''invalid_type'')]) @
     (case pb_newPassword b of
        JStr s \<Rightarrow> password_issues ''newPassword'' s
      | _ \<Rightarrow> [(''newPassword'', ''invalid_type'')])"

definition put_password_handler ::
  "env \<Rightarrow> password_body \<Rightarrow> time \<Rightarrow> user \<Rightarrow> db \<Rightarrow> response \<times> db" where
  "put_password_handler e b now u d =
     (let issues = updatePasswordSchema_issues b
      in if issues \<noteq> [] then (Response 400 (ValidationErrors issues), d)
         else (case updatePassword e (u_id u) (str_of (pb_currentPassword b))
                      (str_of (pb_newPassword b)) now d of
                 (False, d') \<Rightarrow> (Response 400 (Message ''Current password is incorrect''), d')
               | (True, d') \<Rightarrow> (Response 200 (Message ''Password updated successfully''), d')))"

definition put_password ::
  "env \<Rightarrow> password_body \<Rightarrow> time \<Rightarrow> session \<Rightarrow> db \<Rightarrow> response \<times> db" where
  "put_password e b now = authenticated (put_password_handler e b now)"

subsection \<open>Administration\<close>

text \<open>PUT /api/admin/users/:id/role.\<close>

definition put_user_role_handler :: "string \<Rightarrow> jsval \<Rightarrow> time \<Rightarrow> user \<Rightarrow> db \<Rightarrow> response \<times> db" where
  "put_user_role_handler uid role now u d =
     (case role of
        JStr r \<Rightarrow>
          if r \<in> set [''admin'', ''normal'', ''store_owner'']
          then (case updateUserRole uid r now d of (row, d') \<Rightarrow> (Response 200 (UserRow row), d'))
          else (Response 400 (Message ''Invalid role''), d)
      | _ \<Rightarrow> (Response 400 (Message ''Invalid role''), d))"

definition put_user_role :: "string \<Rightarrow> jsval \<Rightarrow> time \<Rightarrow> session \<Rightarrow> db \<Rightarrow> response \<times> db" where
  "put_user_role uid role now =
     authenticated (with_role [''admin''] (put_user_role_handler uid role now))"

text \<open>DELETE /api/admin/users/:id.\<close>

definition delete_user_handler :: "string \<Rightarrow> user \<Rightarrow> db \<Rightarrow> response \<times> db" where
  "delete_user_handler uid u d =
     (case deleteUser uid d of
        (Inl err, d') \<Rightarrow> (internal_error, d')
      | (Inr _, d') \<Rightarrow> (Response 200 (Message ''User deleted successfully''), d'))"

definition delete_user :: "string \<Rightarrow> session \<Rightarrow> db \<Rightarrow> response \<times> db" where
  "delete_user uid = authenticated (with_role [''admin''] (delete_user_handler uid))"

text \<open>
  DELETE /api/admin/stores/:id. The path parameter arrives as \<open>parseInt(id)\<close>: an
  integer, or \<open>None\<close> for NaN, which the database rejects.
\<close>

definition delete_store_handler :: "int option \<Rightarrow> user \<Rightarrow> db \<Rightarrow> response \<times> db" where
  "delete_store_handler sid u d =
     (case sid of
        None \<Rightarrow> (internal_error, d)
      | Some i \<Rightarrow>
          (case deleteStore i d of
             (Inl err, d') \<Rightarrow> (internal_error, d')
           | (Inr _, d') \<Rightarrow> (Response 200 (Message ''Store deleted successfully''), d')))"

definition delete_store :: "int option \<Rightarrow> session \<Rightarrow> db \<Rightarrow> response \<times> db" where
  "delete_store sid = authenticated (with_role [''admin''] (delete_store_handler sid))"

subsection \<open>Ratings\<close>

text \<open>
  \<open>insertRatingSchema\<close> applied to \<open>{...req.body, userId: user.id}\<close>. The \<open>rating\<close> field is
  the schema's own \<open>z.number().min(1).max(5)\<close>; \<open>storeId\<close> is the check derived from the
  column; \<open>userId\<close> is the current user's id, a string.
\<close>

record rating_body =
  b_storeId :: jsval
  b_rating :: jsval

definition num_of :: "jsval \<Rightarrow> rat" where
  "num_of v = (case v of JNum q \<Rightarrow> q | _ \<Rightarrow> 0)"

definition insertRatingSchema_issues :: "env \<Rightarrow> rating_body \<Rightarrow> (string \<times> string) list" where
  "insertRatingSchema_issues e b =
     (case b_storeId b of
        JNum q \<Rightarrow>
          if \<not> zod_int_strict e then []
          else if \<not> integral q then [(''storeId'', ''invalid_type'')]
          else if \<lfloor>q\<rfloor> < - 2147483648 then [(''storeId'', ''too_small'')]
          else if 2147483647 < \<lfloor>q\<rfloor> then [(''storeId'', ''too_big'')]
          else []
      | _ \<Rightarrow> [(''storeId'', ''invalid_type'')]) @
     (case b_rating b of
        JNum q \<Rightarrow>
          (if q < 1 then [(''rating'', ''Rating must be at least 1'')] else []) @
          (if 5 < q then [(''rating'', ''Rating must not exceed 5'')] else [])
      | _ \<Rightarrow> [(''rating'', ''invalid_type'')])"

text \<open>POST /api/ratings.\<close>

definition post_ratings_handler ::
  "env \<Rightarrow> rating_body \<Rightarrow> time \<Rightarrow> user \<Rightarrow> db \<Rightarrow> response \<times> db" where
  "post_ratings_handler e b now u d =
     (let issues = insertRatingSchema_issues e b
      in if issues \<noteq> [] then (Response 400 (ValidationErrors issues), d)
         else
           (let ratingData = \<lparr>ir_userId = u_id u, ir_storeId = num_of (b_storeId b),
                              ir_rating = num_of (b_rating b)\<rparr>
            in case createOrUpdateRating ratingData now d of
                 (Inl err, d') \<Rightarrow> (internal_error, d')
               | (Inr r, d') \<Rightarrow> (Response 200 (RatingRow r), d')))"

definition post_ratings ::
  "env \<Rightarrow> rating_body \<Rightarrow> time \<Rightarrow> session \<Rightarrow> db \<Rightarrow> response \<times> db" where
  "post_ratings e b now = authenticated (with_role [''normal''] (post_ratings_handler e b now))"

subsection \<open>Store owners\<close>

text \<open>GET /api/store-owner/ratings/:storeId, with the ownership check of the handler.\<close>

definition get_owner_ratings_handler :: "int option \<Rightarrow> user \<Rightarrow> db \<Rightarrow> response \<times> db" where
  "get_owner_ratings_handler storeId u d =
     (case storeId of
        None \<Rightarrow> (internal_error, d)
      | Some sid \<Rightarrow>
          (case getStoreById sid d of
             Inl err \<Rightarrow> (internal_error, d)
           | Inr None \<Rightarrow> (Response 403 (Message ''Access denied''), d)
           | Inr (Some s) \<Rightarrow>
               if s_ownerId s \<noteq> Some (u_id u) then (Response 403 (Message ''Access denied''), d)
               else (case (getRatingsByStore sid d, getStoreStats sid d) of
                       (Inr rs, Inr stats) \<Rightarrow> (Response 200 (RatingsAndStats rs stats), d)
                     | _ \<Rightarrow> (internal_error, d))))"

definition get_owner_ratings :: "int option \<Rightarrow> session \<Rightarrow> db \<Rightarrow> response \<times> db" where
  "get_owner_ratings storeId =
     authenticated (with_role [''store_owner''] (get_owner_ratings_handler storeId))"

section \<open>Reachable database states\<close>

text \<open>
  The statements through which the routes write to the database. Each is one SQL
  statement, executed atomically, so that every run of the server, whatever the
  interleaving of its requests, applies a sequence of them to the database.
  (\<open>upsertUser\<close> is called by no route.)
\<close>

datatype storage_op =
    CreateLocalUser insert_user string time
  | UpdateUserRole string string time
  | DeleteUser string
  | UpdatePassword string string string time
  | CreateStore insert_store time
  | UpdateStore int partial_store time
  | DeleteStore int
  | CreateOrUpdateRating insert_rating time

fun exec :: "env \<Rightarrow> storage_op \<Rightarrow> db \<Rightarrow> db" where
  "exec e (CreateLocalUser userData newId now) d = snd (createLocalUser e userData newId now d)"
| "exec e (UpdateUserRole uid role now) d = snd (updateUserRole uid role now d)"
| "exec e (DeleteUser uid) d = snd (deleteUser uid d)"
| "exec e (UpdatePassword uid cur new now) d = snd (updatePassword e uid cur new now d)"
| "exec e (CreateStore storeData now) d = snd (createStore storeData now d)"
| "exec e (UpdateStore sid storeData now) d = snd (updateStore sid storeData now d)"
| "exec e (DeleteStore sid) d = snd (deleteStore sid d)"
| "exec e (CreateOrUpdateRating ratingData now) d = snd (createOrUpdateRating ratingData now d)"

definition run :: "env \<Rightarrow> storage_op list \<Rightarrow> db \<Rightarrow> db" where
  "run e ops d = fold (exec e) ops d"

text \<open>
  The constraints the schema declares: primary keys, the unique pair of a rating, ids
  issued by the sequences, the three foreign keys, the unique email (which SQL does not
  demand of NULLs), and store ids within the range of their column.
\<close>

definition db_wf :: "db \<Rightarrow> bool" where
  "db_wf d =
     (distinct (map u_id (users d)) \<and>
      distinct (map s_id (stores d)) \<and>
      distinct (map r_id (ratings d)) \<and>
      distinct (map rating_key (ratings d)) \<and>
      list_all (\<lambda>s. s_id s \<le> stores_seq d) (stores d) \<and>
      list_all (\<lambda>r. r_id r \<le> ratings_seq d) (ratings d) \<and>
      list_all (\<lambda>s. owner_ok (s_ownerId s) d) (stores d) \<and>
      list_all (\<lambda>r. r_userId r \<in> set (map u_id (users d))) (ratings d) \<and>
      list_all (\<lambda>r. r_storeId r \<in> set (map s_id (stores d))) (ratings d) \<and>
      distinct (filter (\<lambda>e. e \<noteq> None) (map u_email (users d))) \<and>
      list_all (\<lambda>s. int4 (s_id s)) (stores d))"

text \<open>The number of rating rows of a user for a store.\<close>

definition rows_for :: "string \<Rightarrow> int \<Rightarrow> db \<Rightarrow> rating list" where
  "rows_for uid sid d = filter (\<lambda>r. r_userId r = uid \<and> r_storeId r = sid) (ratings d)"

text \<open>The rating values of a store, in row order.\<close>

definition store_ratings :: "int \<Rightarrow> db \<Rightarrow> int list" where
  "store_ratings sid d = map r_rating (filter (\<lambda>r. r_storeId r = sid) (ratings d))"

section \<open>Sample data\<close>

text \<open>
  A concrete environment and a small database: an administrator, a rater and two store
  owners; one store owned by the first store owner, rated once, and one store without
  owner and without ratings.
\<close>

definition test_env :: env where
  "test_env = \<lparr>bcrypt_hash = (\<lambda>p. CHR ''#'' # p), bcrypt_compare = (\<lambda>p h. h = CHR ''#'' # p),
               zod_email = (\<lambda>s. CHR ''@'' \<in> set s), zod_int_strict = True\<rparr>"

definition mk_user :: "string \<Rightarrow> string \<Rightarrow> string \<Rightarrow> user" where
  "mk_user uid pw role =
     \<lparr>u_id = uid, u_email = Some (uid @ ''@x.org''), u_name = Some uid, u_address = Some [],
      u_password = Some (CHR ''#'' # pw), u_role = role, u_createdAt = 0, u_updatedAt = 0\<rparr>"

definition mk_store :: "int \<Rightarrow> string option \<Rightarrow> store" where
  "mk_store sid owner =
     \<lparr>s_id = sid, s_name = ''shop'', s_email = ''shop@x.org'', s_address = [],
      s_ownerId = owner, s_createdAt = 1, s_updatedAt = 1\<rparr>"

definition alice :: user where "alice = mk_user ''alice'' ''Secret!1'' ''admin''"
definition bob :: user where "bob = mk_user ''bob'' ''Secret!2'' ''normal''"
definition carol :: user where "carol = mk_user ''carol'' ''Secret!3'' ''store_owner''"
definition dave :: user where "dave = mk_user ''dave'' ''Secret!4'' ''store_owner''"

definition sample_db :: db where
  "sample_db =
     \<lparr>users = [alice, bob, carol, dave],
      stores = [mk_store 1 (Some ''carol''), mk_store 2 None],
      ratings = [\<lparr>r_id = 1, r_userId = ''bob'', r_storeId = 1, r_rating = 4,
                  r_createdAt = 2, r_updatedAt = 2\<rparr>],
      stores_seq = 2, ratings_seq = 1\<rparr>"

definition session_of :: "user \<Rightarrow> session" where
  "session_of u = \<lparr>userId = Some (u_id u), userRole = Some (u_role u)\<rparr>"

definition sample_ops :: "storage_op list" where
  "sample_ops =
     [CreateLocalUser \<lparr>iu_name = ''bob'', iu_email = ''bob@x.org'', iu_address = [],
                       iu_password = ''Secret!2'', iu_role = ''normal''\<rparr> ''bob'' 0,
      CreateStore \<lparr>is_name = ''shop'', is_email = ''shop@x.org'', is_address = [],
                   is_ownerId = None\<rparr> 1,
      CreateOrUpdateRating \<lparr>ir_userId = ''bob'', ir_storeId = 1, ir_rating = 4\<rparr> 2]"

definition spec_example_db :: db where
  "spec_example_db =
     \<lparr>users = [alice, bob, carol],
      stores = [mk_store 1 (Some ''carol''), mk_store 2 None],
      ratings = [\<lparr>r_id = 1, r_userId = ''alice'', r_storeId = 1, r_rating = 4,
                  r_createdAt = 2, r_updatedAt = 2\<rparr>,
                 \<lparr>r_id = 2, r_userId = ''bob'', r_storeId = 1, r_rating = 5,
                  r_createdAt = 3, r_updatedAt = 3\<rparr>,
                 \<lparr>r_id = 3, r_userId = ''carol'', r_storeId = 1, r_rating = 3,
                  r_createdAt = 4, r_updatedAt = 4\<rparr>],
      stores_seq = 2, ratings_seq = 3\<rparr>"

definition bob_session :: session where
  "bob_session =
     snd (authenticateLocal test_env (Some ''bob@x.org'') (Some ''Secret!2'') no_session sample_db)"

definition promoted_db :: db where
  "promoted_db = snd (put_user_role ''bob'' (JStr ''admin'') 5 (session_of alice) sample_db)"

definition admin_request :: register_body where
  "admin_request =
     \<lparr>rb_name = JStr ''Mallory Example Person'', rb_email = JStr ''mallory@x.org'',
      rb_address = JStr ''1 Main Street'', rb_password = JStr ''Secret!9'',
      rb_role = JStr ''admin''\<rparr>"

definition dave_deleted_db :: db where
  "dave_deleted_db = snd (delete_user ''dave'' (session_of alice) sample_db)"

text \<open>A store rated by nine users: seven times 1 and twice 2.\<close>

definition nine_raters :: "string list" where
  "nine_raters = [''u1'', ''u2'', ''u3'', ''u4'', ''u5'', ''u6'', ''u7'', ''u8'', ''u9'']"

definition rounding_example_db :: db where
  "rounding_example_db =
     \<lparr>users = map (\<lambda>u. mk_user u ''Secret!0'' ''normal'') nine_raters,
      stores = [mk_store 1 None],
      ratings = map (\<lambda>(i, u, v). \<lparr>r_id = i, r_userId = u, r_storeId = 1, r_rating = v,
                                  r_createdAt = 2, r_updatedAt = 2\<rparr>)
                    (zip [1..9] (zip nine_raters [1, 1, 1, 1, 1, 1, 1, 2, 2])),
      stores_seq = 1, ratings_seq = 9\<rparr>"

section \<open>Schema constraints are preserved\<close>

lemma rating_key_upd [simp]:
  "rating_key (r\<lparr>r_rating := v, r_updatedAt := t\<rparr>) = rating_key r"
  by (simp add: rating_key_def)

lemma rating_key_mk [simp]:
  "rating_key \<lparr>r_id = i, r_userId = u, r_storeId = s, r_rating = v, r_createdAt = c,
     r_updatedAt = t\<rparr> = (u, s)"
  by (simp add: rating_key_def)

lemma map_proj_upd:
  "(\<And>x. f (g x) = f x) \<Longrightarrow> map (f \<circ> (\<lambda>x. if P x then g x else x)) xs = map f xs"
  by (induction xs) auto

lemma filter_proj: "map f (filter (\<lambda>x. f x \<noteq> a) xs) = filter (\<lambda>y. y \<noteq> a) (map f xs)"
  by (induction xs) auto

lemma image_Collect_ne: "f ` {x \<in> A. f x \<noteq> a} = f ` A - {a}"
  by auto

lemma list_ex_proj: "list_ex (\<lambda>x. f x = a) xs \<longleftrightarrow> a \<in> set (map f xs)"
  by (auto simp: list_ex_iff)

lemma owner_ok_iff: "owner_ok oid d \<longleftrightarrow> (\<forall>u. oid = Some u \<longrightarrow> u \<in> set (map u_id (users d)))"
  by (auto simp: owner_ok_def list_ex_proj split: option.splits)

lemmas wf_simps = Let_def find_None_iff list_all_iff list_ex_proj owner_ok_iff getUser_def
  map_proj_upd

lemma wf_updateUserRole: "db_wf d \<Longrightarrow> db_wf (snd (updateUserRole u r now d))"
  unfolding db_wf_def updateUserRole_def
  by (simp add: wf_simps)

lemma updatePassword_ids:
  "map u_id (users (snd (updatePassword e u c n now d))) = map u_id (users d)"
  by (simp add: updatePassword_def Let_def map_proj_upd split: option.splits)

lemma updatePassword_other:
  "stores (snd (updatePassword e u c n now d)) = stores d"
  "ratings (snd (updatePassword e u c n now d)) = ratings d"
  "stores_seq (snd (updatePassword e u c n now d)) = stores_seq d"
  "ratings_seq (snd (updatePassword e u c n now d)) = ratings_seq d"
  by (simp_all add: updatePassword_def Let_def split: option.splits)

lemma updatePassword_emails:
  "map u_email (users (snd (updatePassword e u c n now d))) = map u_email (users d)"
  by (simp add: updatePassword_def Let_def map_proj_upd split: option.splits)

lemma wf_updatePassword: "db_wf d \<Longrightarrow> db_wf (snd (updatePassword e u c n now d))"
  unfolding db_wf_def
  by (simp add: owner_ok_iff updatePassword_ids updatePassword_emails updatePassword_other
       del: set_map)

lemma wf_createLocalUser: "db_wf d \<Longrightarrow> db_wf (snd (createLocalUser e ud i now d))"
  unfolding db_wf_def createLocalUser_def
  by (auto simp add: wf_simps)

lemma wf_createOrUpdateRating: "db_wf d \<Longrightarrow> db_wf (snd (createOrUpdateRating rd now d))"
  unfolding db_wf_def createOrUpdateRating_def
  by (auto simp: wf_simps split: option.splits prod.splits intro: rev_image_eqI)

lemma wf_createStore: "db_wf d \<Longrightarrow> db_wf (snd (createStore sd now d))"
  unfolding db_wf_def createStore_def
  by (auto simp: wf_simps)

lemma distinct_filter_map_filter:
  "distinct (filter Q (map f xs)) \<Longrightarrow> distinct (filter Q (map f (filter P xs)))"
  by (induction xs) auto

lemma deleteUser_emails:
  "distinct (filter Q (map u_email (users d))) \<Longrightarrow>
   distinct (filter Q (map u_email (users (snd (deleteUser u d)))))"
  unfolding deleteUser_def
  by (simp add: distinct_filter_map_filter del: filter_map)

lemma wf_deleteUser: "db_wf d \<Longrightarrow> db_wf (snd (deleteUser u d))"
proof -
  assume wf: "db_wf d"
  then have e: "distinct (filter (\<lambda>e. e \<noteq> None) (map u_email (users (snd (deleteUser u d)))))"
    by (simp add: db_wf_def deleteUser_emails)
  have "distinct (map u_id (users (snd (deleteUser u d)))) \<and>
      distinct (map s_id (stores (snd (deleteUser u d)))) \<and>
      distinct (map r_id (ratings (snd (deleteUser u d)))) \<and>
      distinct (map rating_key (ratings (snd (deleteUser u d)))) \<and>
      list_all (\<lambda>s. s_id s \<le> stores_seq (snd (deleteUser u d))) (stores (snd (deleteUser u d))) \<and>
      list_all (\<lambda>r. r_id r \<le> ratings_seq (snd (deleteUser u d))) (ratings (snd (deleteUser u d))) \<and>
      list_all (\<lambda>s. owner_ok (s_ownerId s) (snd (deleteUser u d))) (stores (snd (deleteUser u d))) \<and>
      list_all (\<lambda>r. r_userId r \<in> set (map u_id (users (snd (deleteUser u d)))))
        (ratings (snd (deleteUser u d))) \<and>
      list_all (\<lambda>r. r_storeId r \<in> set (map s_id (stores (snd (deleteUser u d)))))
        (ratings (snd (deleteUser u d)))"
    using wf unfolding db_wf_def deleteUser_def
    by (auto simp: wf_simps filter_proj distinct_map_filter image_Collect_ne)
       (metis image_eqI)
  moreover have "stores (snd (deleteUser u d)) = stores d"
    by (simp add: deleteUser_def)
  ultimately show ?thesis using e wf by (simp add: db_wf_def)
qed

lemma wf_deleteStore: "db_wf d \<Longrightarrow> db_wf (snd (deleteStore s d))"
  unfolding db_wf_def deleteStore_def
  by (auto simp: wf_simps filter_proj distinct_map_filter image_Collect_ne)

lemma updateStore_ids:
  "map s_id (stores (snd (updateStore s sd now d))) = map s_id (stores d)"
  by (simp add: updateStore_def Let_def map_proj_upd set_store_def)

lemma updateStore_other:
  "users (snd (updateStore s sd now d)) = users d"
  "ratings (snd (updateStore s sd now d)) = ratings d"
  "stores_seq (snd (updateStore s sd now d)) = stores_seq d"
  "ratings_seq (snd (updateStore s sd now d)) = ratings_seq d"
  by (simp_all add: updateStore_def Let_def)

lemma updateStore_owner:
  "list_all (\<lambda>s. owner_ok (s_ownerId s) d) (stores d) \<Longrightarrow>
   list_all (\<lambda>x. owner_ok (s_ownerId x) d) (stores (snd (updateStore s sd now d)))"
  unfolding updateStore_def
  by (auto simp: wf_simps set_store_def split: option.splits)

lemma updateStore_ids_pred:
  "list_all (\<lambda>s. P (s_id s)) (stores d) \<Longrightarrow>
   list_all (\<lambda>x. P (s_id x)) (stores (snd (updateStore s sd now d)))"
  unfolding updateStore_def
  by (auto simp: wf_simps set_store_def split: option.splits)

lemmas updateStore_seq = updateStore_ids_pred [of "\<lambda>i. i \<le> n" for n]

lemmas updateStore_int4 = updateStore_ids_pred [of int4]

lemma wf_updateStore: "db_wf d \<Longrightarrow> db_wf (snd (updateStore s sd now d))"
  unfolding db_wf_def
  by (simp add: owner_ok_iff updateStore_ids updateStore_other
       updateStore_owner[unfolded owner_ok_iff] updateStore_seq updateStore_int4 del: set_map)

lemma wf_exec: "db_wf d \<Longrightarrow> db_wf (exec e op d)"
  by (cases op)
     (simp_all add: wf_createLocalUser wf_updateUserRole wf_deleteUser wf_updatePassword
        wf_createStore wf_updateStore wf_deleteStore wf_createOrUpdateRating)

lemma wf_run: "db_wf d \<Longrightarrow> db_wf (run e ops d)"
  unfolding run_def by (induction ops arbitrary: d) (simp_all add: wf_exec)

lemma wf_empty_db: "db_wf empty_db"
  by (simp add: db_wf_def empty_db_def)

lemma distinct_key_rows:
  "distinct (map rating_key rs) \<Longrightarrow>
   length (filter (\<lambda>r. r_userId r = uid \<and> r_storeId r = sid) rs) \<le> 1"
proof (induction rs)
  case Nil
  then show ?case by simp
next
  case (Cons r rs)
  show ?case
  proof (cases "r_userId r = uid \<and> r_storeId r = sid")
    case True
    with Cons.prems have "\<forall>x \<in> set rs. \<not> (r_userId x = uid \<and> r_storeId x = sid)"
      by (auto simp: rating_key_def image_iff)
    then have "filter (\<lambda>r. r_userId r = uid \<and> r_storeId r = sid) rs = []"
      by (simp add: filter_empty_conv)
    with True show ?thesis by simp
  next
    case False
    with Cons show ?thesis by auto
  qed
qed

lemma wf_rows_for: "db_wf d \<Longrightarrow> length (rows_for uid sid d) \<le> 1"
  unfolding rows_for_def by (rule distinct_key_rows) (simp add: db_wf_def)

section \<open>Requests preserve the schema constraints\<close>

lemma cour_users_stores:
  "users (snd (createOrUpdateRating rd now d)) = users d"
  "stores (snd (createOrUpdateRating rd now d)) = stores d"
  by (simp_all add: createOrUpdateRating_def Let_def split: option.splits)

lemma post_ratings_handler_snd:
  "snd (post_ratings_handler e b now u d) = d \<or>
   snd (post_ratings_handler e b now u d)
     = snd (createOrUpdateRating \<lparr>ir_userId = u_id u, ir_storeId = num_of (b_storeId b),
                              ir_rating = num_of (b_rating b)\<rparr> now d)"
  by (simp add: post_ratings_handler_def Let_def split: prod.splits sum.splits)

lemma post_ratings_snd:
  "snd (post_ratings e b now sess d) = d \<or>
   (\<exists>u. requireAuth sess d = Inr u \<and> snd (post_ratings e b now sess d)
     = snd (createOrUpdateRating \<lparr>ir_userId = u_id u, ir_storeId = num_of (b_storeId b),
                              ir_rating = num_of (b_rating b)\<rparr> now d))"
  using post_ratings_handler_snd [of e b now _ d]
  by (auto simp: post_ratings_def authenticated_def with_role_def split: sum.splits)

lemma wf_authenticated:
  "db_wf d \<Longrightarrow> (\<And>u. db_wf (snd (h u d))) \<Longrightarrow> db_wf (snd (authenticated h sess d))"
  by (simp add: authenticated_def split: sum.splits)

lemma wf_with_role:
  "db_wf d \<Longrightarrow> db_wf (snd (h u d)) \<Longrightarrow> db_wf (snd (with_role roles h u d))"
  by (simp add: with_role_def split: sum.splits)

lemma wf_post_ratings: "db_wf d \<Longrightarrow> db_wf (snd (post_ratings e b now sess d))"
  using post_ratings_snd [of e b now sess d] by (auto simp: wf_createOrUpdateRating)

lemma put_password_handler_snd:
  "snd (put_password_handler e b now u d) = d \<or>
   snd (put_password_handler e b now u d) =
     snd (updatePassword e (u_id u) (str_of (pb_currentPassword b)) (str_of (pb_newPassword b)) now d)"
  by (simp add: put_password_handler_def Let_def split: prod.splits bool.splits)

lemma wf_put_password: "db_wf d \<Longrightarrow> db_wf (snd (put_password e b now sess d))"
  unfolding put_password_def
proof (rule wf_authenticated)
  fix u assume "db_wf d"
  then show "db_wf (snd (put_password_handler e b now u d))"
    using put_password_handler_snd [of e b now u d] wf_updatePassword [of d e] by auto
qed

lemma put_user_role_handler_snd:
  "snd (put_user_role_handler uid role now u d) = d \<or>
   (\<exists>r. snd (put_user_role_handler uid role now u d) = snd (updateUserRole uid r now d))"
  by (auto simp: put_user_role_handler_def case_prod_unfold split: jsval.splits)

lemma wf_put_user_role: "db_wf d \<Longrightarrow> db_wf (snd (put_user_role uid role now sess d))"
  unfolding put_user_role_def
proof (rule wf_authenticated)
  fix u assume wf: "db_wf d"
  then have "db_wf (snd (put_user_role_handler uid role now u d))"
    using put_user_role_handler_snd [of uid role now u d] wf_updateUserRole [of d uid] by auto
  with wf show "db_wf (snd (with_role [''admin''] (put_user_role_handler uid role now) u d))"
    by (rule wf_with_role)
qed

lemma delete_user_handler_snd: "snd (delete_user_handler uid u d) = snd (deleteUser uid d)"
  by (simp add: delete_user_handler_def split: prod.splits sum.splits)

lemma wf_delete_user: "db_wf d \<Longrightarrow> db_wf (snd (delete_user uid sess d))"
  unfolding delete_user_def
proof (rule wf_authenticated)
  fix u assume wf: "db_wf d"
  then have "db_wf (snd (delete_user_handler uid u d))"
    by (simp add: delete_user_handler_snd wf_deleteUser)
  with wf show "db_wf (snd (with_role [''admin''] (delete_user_handler uid) u d))"
    by (rule wf_with_role)
qed

lemma delete_store_handler_snd:
  "snd (delete_store_handler sid u d) = d \<or>
   (\<exists>i. snd (delete_store_handler sid u d) = snd (deleteStore i d))"
  by (auto simp: delete_store_handler_def case_prod_unfold split: option.splits sum.splits)

lemma wf_delete_store: "db_wf d \<Longrightarrow> db_wf (snd (delete_store sid sess d))"
  unfolding delete_store_def
proof (rule wf_authenticated)
  fix u assume wf: "db_wf d"
  then have "db_wf (snd (delete_store_handler sid u d))"
    using delete_store_handler_snd [of sid u d] wf_deleteStore [of d] by auto
  with wf show "db_wf (snd (with_role [''admin''] (delete_store_handler sid) u d))"
    by (rule wf_with_role)
qed

lemma get_owner_ratings_snd: "snd (get_owner_ratings storeId sess d) = d"
  by (simp add: get_owner_ratings_def authenticated_def with_role_def
      get_owner_ratings_handler_def split: sum.splits option.splits)

lemma wf_post_register: "db_wf d \<Longrightarrow> db_wf (snd (snd (post_register e b newId now sess d)))"
proof -
  assume wf: "db_wf d"
  have "snd (snd (post_register e b newId now sess d)) = d \<or>
    (\<exists>ud. snd (snd (post_register e b newId now sess d)) = snd (createLocalUser e ud newId now d))"
    by (auto simp: post_register_def case_prod_unfold split: sum.splits option.splits)
  with wf show ?thesis
    using wf_createLocalUser [of d e _ newId now] by auto
qed

section \<open>One rating per user and store\<close>

text \<open>
  C1. In every database state reached from the empty database by any sequence of the
  storage layer's write statements, a pair of user id and store id has at most one rating
  row. Concurrent submissions are such a sequence, in the order the database commits
  them: after any further list of submissions by the same user for the same store, the pair
  still has at most one row; and so it has after any request to POST /api/ratings.
\<close>

theorem at_most_one_rating_per_pair:
  "length (rows_for uid sid (run e ops empty_db)) \<le> 1 \<and>
   length (rows_for uid sid
     (run e (map (\<lambda>(v, t). CreateOrUpdateRating
                 \<lparr>ir_userId = uid, ir_storeId = of_int sid, ir_rating = v\<rparr> t) calls)
        (run e ops empty_db))) \<le> 1 \<and>
   length (rows_for uid sid (snd (post_ratings e b now sess (run e ops empty_db)))) \<le> 1"
  by (intro conjI wf_rows_for wf_run wf_post_ratings wf_empty_db)

theorem at_most_one_rating_per_pair_witness:
  "length (rows_for ''bob'' 1 (run test_env sample_ops empty_db)) = 1 \<and>
   length (rows_for ''bob'' 1 (run test_env
       (map (\<lambda>(v, t). CreateOrUpdateRating
                 \<lparr>ir_userId = ''bob'', ir_storeId = of_int 1, ir_rating = v\<rparr> t) [(5, 3), (2, 4)])
       (run test_env sample_ops empty_db))) = 1 \<and>
   length (rows_for ''bob'' 1
     (snd (post_ratings test_env \<lparr>b_storeId = JNum 1, b_rating = JNum 2\<rparr> 9 (session_of bob)
            (run test_env sample_ops empty_db)))) = 1"
proof -
  have "1 \<le> length (rows_for ''bob'' 1 (run test_env sample_ops empty_db))"
    by code_simp
  moreover have "1 \<le> length (rows_for ''bob'' 1 (run test_env
       (map (\<lambda>(v, t). CreateOrUpdateRating
                 \<lparr>ir_userId = ''bob'', ir_storeId = of_int 1, ir_rating = v\<rparr> t) [(5, 3), (2, 4)])
       (run test_env sample_ops empty_db)))"
    by code_simp
  moreover have "1 \<le> length (rows_for ''bob'' 1
     (snd (post_ratings test_env \<lparr>b_storeId = JNum 1, b_rating = JNum 2\<rparr> 9 (session_of bob)
            (run test_env sample_ops empty_db))))"
    by code_simp
  ultimately show ?thesis
    using at_most_one_rating_per_pair [of "''bob''" 1 test_env sample_ops "[(5, 3), (2, 4)]"
        "\<lparr>b_storeId = JNum 1, b_rating = JNum 2\<rparr>" 9 "session_of bob"]
    by linarith
qed

section \<open>Submitting a rating twice\<close>

lemma integral_of_int [simp]: "integral (of_int n)"
  by (simp add: integral_def)

lemma pg_integer_of_int [simp]: "int4 n \<Longrightarrow> pg_integer (of_int n) = Some n"
  by (simp add: pg_integer_def)

lemma int4_rating: "1 \<le> v \<Longrightarrow> v \<le> 5 \<Longrightarrow> int4 v"
  by (simp add: int4_def)

lemma wf_store_int4:
  "db_wf d \<Longrightarrow> list_ex (\<lambda>s. s_id s = sid) (stores d) \<Longrightarrow> int4 sid"
  by (auto simp: db_wf_def list_all_iff list_ex_iff)

lemma requireAuth_InrD:
  "requireAuth sess d = Inr u \<Longrightarrow>
     getUser (u_id u) d = Some u \<and> userId sess = Some (u_id u) \<and> u_id u \<noteq> []"
  by (auto simp: requireAuth_def getUser_def find_Some_iff split: option.splits if_splits)

lemma authenticated_Inr:
  "requireAuth sess d = Inr u \<Longrightarrow> authenticated h sess d = h u d"
  by (simp add: authenticated_def)

lemma with_role_ok: "u_role u \<in> set roles \<Longrightarrow> with_role roles h u d = h u d"
  by (simp add: with_role_def requireRole_def)

lemma with_role_denied:
  "u_role u \<notin> set roles \<Longrightarrow>
   with_role roles h u d = (Response 403 (Message ''Insufficient permissions''), d)"
  by (simp add: with_role_def requireRole_def)

lemma rows_for_find_None:
  "find (\<lambda>r. rating_key r = (uid, sid)) (ratings d) = None \<longleftrightarrow> rows_for uid sid d = []"
  by (auto simp: find_None_iff rows_for_def rating_key_def filter_empty_conv)

lemma find_key_rows:
  "find (\<lambda>r. rating_key r = (uid, sid)) rs =
     (case filter (\<lambda>r. r_userId r = uid \<and> r_storeId r = sid) rs of [] \<Rightarrow> None | r # _ \<Rightarrow> Some r)"
  by (induction rs) (auto simp: rating_key_def)

lemma rows_upd:
  "filter (\<lambda>r. r_userId r = uid \<and> r_storeId r = sid)
     (map (\<lambda>r. if rating_key r = (uid, sid) then r\<lparr>r_rating := v, r_updatedAt := t\<rparr> else r) rs)
   = map (\<lambda>r. r\<lparr>r_rating := v, r_updatedAt := t\<rparr>)
       (filter (\<lambda>r. r_userId r = uid \<and> r_storeId r = sid) rs)"
  by (induction rs) (auto simp: rating_key_def)

lemma store_rows_upd:
  "filter ((\<lambda>r. r_storeId r = s) \<circ>
      (\<lambda>r. if P r then r\<lparr>r_rating := v, r_updatedAt := t\<rparr> else r)) rs
   = filter (\<lambda>r. r_storeId r = s) rs"
  by (induction rs) auto

lemma upsert_existing:
  assumes "rows_for uid sid d = [r0]" and "int4 sid" and "int4 v"
  shows "createOrUpdateRating \<lparr>ir_userId = uid, ir_storeId = of_int sid, ir_rating = of_int v\<rparr> now d
         = (Inr (r0\<lparr>r_rating := v, r_updatedAt := now\<rparr>),
            d\<lparr>ratings_seq := ratings_seq d + 1,
              ratings := map (\<lambda>r. if rating_key r = (uid, sid)
                                   then r\<lparr>r_rating := v, r_updatedAt := now\<rparr> else r) (ratings d)\<rparr>)"
proof -
  have "r0 \<in> set (rows_for uid sid d)"
    by (simp add: assms)
  then have k: "rating_key r0 = (uid, sid)"
    by (simp add: rows_for_def rating_key_def)
  from assms(1) have "find (\<lambda>r. rating_key r = (uid, sid)) (ratings d) = Some r0"
    by (simp add: find_key_rows rows_for_def)
  then show ?thesis using k assms(2,3)
    by (simp add: createOrUpdateRating_def Let_def)
qed

lemma upsert_new:
  assumes "rows_for uid sid d = []" "getUser uid d = Some u" "list_ex (\<lambda>s. s_id s = sid) (stores d)"
    "list_all (\<lambda>r. r_id r \<le> ratings_seq d) (ratings d)" "int4 sid" "int4 v"
  shows "createOrUpdateRating \<lparr>ir_userId = uid, ir_storeId = of_int sid, ir_rating = of_int v\<rparr> now d
         = (Inr \<lparr>r_id = ratings_seq d + 1, r_userId = uid, r_storeId = sid, r_rating = v,
                 r_createdAt = now, r_updatedAt = now\<rparr>,
            d\<lparr>ratings_seq := ratings_seq d + 1,
              ratings := ratings d @ [\<lparr>r_id = ratings_seq d + 1, r_userId = uid, r_storeId = sid,
                 r_rating = v, r_createdAt = now, r_updatedAt = now\<rparr>]\<rparr>)"
proof -
  from assms(1) have "find (\<lambda>r. rating_key r = (uid, sid)) (ratings d) = None"
    by (simp add: rows_for_find_None)
  moreover from assms(4) have "\<not> list_ex (\<lambda>r. r_id r = ratings_seq d + 1) (ratings d)"
    by (auto simp: list_all_iff list_ex_iff)
  ultimately show ?thesis using assms(2,3,5,6)
    by (simp add: createOrUpdateRating_def Let_def)
qed

lemma requireAuth_users:
  "users d' = users d \<Longrightarrow> requireAuth sess d' = requireAuth sess d"
  by (auto simp: requireAuth_def getUser_def split: option.splits)

lemma valid_rating_issues:
  "1 \<le> v \<Longrightarrow> v \<le> 5 \<Longrightarrow> int4 sid \<Longrightarrow>
   insertRatingSchema_issues e \<lparr>b_storeId = JNum (of_int sid), b_rating = JNum (of_int v)\<rparr> = []"
  by (simp add: insertRatingSchema_issues_def int4_def)

lemma post_ratings_valid:
  assumes "requireAuth sess d = Inr u" "u_role u = ''normal''" "1 \<le> v" "v \<le> 5" "int4 sid"
  shows "post_ratings e \<lparr>b_storeId = JNum (of_int sid), b_rating = JNum (of_int v)\<rparr> now sess d =
     (case createOrUpdateRating
             \<lparr>ir_userId = u_id u, ir_storeId = of_int sid, ir_rating = of_int v\<rparr> now d of
        (Inl err, d') \<Rightarrow> (internal_error, d')
      | (Inr r, d') \<Rightarrow> (Response 200 (RatingRow r), d'))"
  using assms
  by (simp add: post_ratings_def authenticated_Inr with_role_ok post_ratings_handler_def
      valid_rating_issues num_of_def)

lemma submit_ok:
  assumes wf: "db_wf d"
    and auth: "requireAuth sess d = Inr u" and role: "u_role u = ''normal''"
    and store: "list_ex (\<lambda>s. s_id s = sid) (stores d)"
    and v: "1 \<le> v" "v \<le> 5"
  obtains r d' where
    "post_ratings e \<lparr>b_storeId = JNum (of_int sid), b_rating = JNum (of_int v)\<rparr> now sess d
       = (Response 200 (RatingRow r), d')"
    "rows_for (u_id u) sid d' = [r]" "r_rating r = v" "r_updatedAt r = now"
    "users d' = users d" "stores d' = stores d" "db_wf d'"
    "\<And>r0. rows_for (u_id u) sid d = [r0] \<Longrightarrow>
        r = r0\<lparr>r_rating := v, r_updatedAt := now\<rparr> \<and>
        length (filter (\<lambda>r. r_storeId r = sid) (ratings d'))
          = length (filter (\<lambda>r. r_storeId r = sid) (ratings d))"
proof -
  let ?rd = "\<lparr>ir_userId = u_id u, ir_storeId = of_int sid, ir_rating = of_int v\<rparr>"
  have gu: "getUser (u_id u) d = Some u"
    using auth by (simp add: requireAuth_InrD)
  have wf': "db_wf (snd (createOrUpdateRating ?rd now d))"
    using wf by (rule wf_createOrUpdateRating)
  have le1: "length (rows_for (u_id u) sid d) \<le> 1"
    using wf by (rule wf_rows_for)
  have i4s: "int4 sid"
    using wf store by (rule wf_store_int4)
  have i4v: "int4 v"
    using v by (rule int4_rating)
  show thesis
  proof (cases "rows_for (u_id u) sid d")
    case Nil
    have seq: "list_all (\<lambda>r. r_id r \<le> ratings_seq d) (ratings d)"
      using wf by (simp add: db_wf_def)
    note up = upsert_new [OF Nil gu store seq i4s i4v, of now]
    show thesis
    proof (rule that)
      show "post_ratings e \<lparr>b_storeId = JNum (of_int sid), b_rating = JNum (of_int v)\<rparr> now sess d
        = (Response 200 (RatingRow \<lparr>r_id = ratings_seq d + 1, r_userId = u_id u, r_storeId = sid,
             r_rating = v, r_createdAt = now, r_updatedAt = now\<rparr>), snd (createOrUpdateRating ?rd now d))"
        by (simp add: post_ratings_valid [OF auth role v i4s] up)
      show "rows_for (u_id u) sid (snd (createOrUpdateRating ?rd now d)) =
          [\<lparr>r_id = ratings_seq d + 1, r_userId = u_id u, r_storeId = sid,
             r_rating = v, r_createdAt = now, r_updatedAt = now\<rparr>]"
        using Nil by (simp add: up rows_for_def)
      show "db_wf (snd (createOrUpdateRating ?rd now d))" by (rule wf')
    qed (simp_all add: up Nil)
  next
    case (Cons r0 rest)
    with le1 have one: "rows_for (u_id u) sid d = [r0]" by simp
    note up = upsert_existing [OF one i4s i4v, of now]
    show thesis
    proof (rule that)
      show "post_ratings e \<lparr>b_storeId = JNum (of_int sid), b_rating = JNum (of_int v)\<rparr> now sess d
        = (Response 200 (RatingRow (r0\<lparr>r_rating := v, r_updatedAt := now\<rparr>)),
           snd (createOrUpdateRating ?rd now d))"
        by (simp add: post_ratings_valid [OF auth role v i4s] up)
      show "rows_for (u_id u) sid (snd (createOrUpdateRating ?rd now d)) =
          [r0\<lparr>r_rating := v, r_updatedAt := now\<rparr>]"
        using one by (simp add: up rows_for_def rows_upd)
      show "db_wf (snd (createOrUpdateRating ?rd now d))" by (rule wf')
    qed (simp_all add: up one store_rows_upd)
  qed
qed



section \<open>Store statistics\<close>

text \<open>Whole numbers pass through both roundings unchanged.\<close>

lemma round_half_even_of_int [simp]: "round_half_even (of_int n) = n"
  by (simp add: round_half_even_def Let_def)

lemma floor_int_plus_half: "\<lfloor>of_int n + (1 / 2 :: rat)\<rfloor> = n"
  by (rule floor_unique) simp_all

lemma round_scale_of_int [simp]: "round_scale s (of_int k) = of_int k"
proof -
  have "\<bar>of_int k :: rat\<bar> * 10 ^ s + 1 / 2 = of_int (\<bar>k\<bar> * 10 ^ s) + 1 / 2"
    by simp
  then have "\<lfloor>\<bar>of_int k :: rat\<bar> * 10 ^ s + 1 / 2\<rfloor> = \<bar>k\<bar> * 10 ^ s"
    by (simp only: floor_int_plus_half)
  then show ?thesis
    by (simp add: round_scale_def sgn_if)
qed

text \<open>Powers of two and the error of the conversion to a double.\<close>

lemma pow2_pos [simp]: "0 < pow2 k"
  by (simp add: pow2_def)

lemma pow2_powi: "pow2 k = 2 powi k"
  by (simp add: pow2_def power_int_def power_one_over inverse_eq_divide)

lemma pow2_nat: "pow2 (int n) = 2 ^ n"
  by (simp add: pow2_def)

lemma pow2_add: "pow2 (j + k) = pow2 j * pow2 k"
  by (simp add: pow2_powi power_int_add)

lemma pow2_mono: "j \<le> k \<Longrightarrow> pow2 j \<le> pow2 k"
  by (simp add: pow2_powi power_int_increasing)

lemma pow2_less_cancel: "pow2 j < pow2 k \<Longrightarrow> j < k"
  using pow2_mono [of k j] by (cases "j < k") auto

lemma abs_pow2 [simp]: "\<bar>pow2 k\<bar> = pow2 k"
  by (simp add: abs_of_pos)

lemma round_half_even_error: "\<bar>of_int (round_half_even x) - x\<bar> \<le> 1 / 2"
proof -
  define f where "f = \<lfloor>x\<rfloor>"
  define r where "r = x - of_int f"
  have r: "0 \<le> r" "r < 1"
    unfolding r_def f_def by linarith+
  have x: "x = of_int f + r"
    by (simp add: r_def)
  have "round_half_even x =
      (if r < 1 / 2 then f else if 1 / 2 < r then f + 1 else if even f then f else f + 1)"
    by (simp only: round_half_even_def Let_def f_def [symmetric] r_def [symmetric])
  then show ?thesis
    using r unfolding x by (auto simp: abs_if)
qed

lemma to_double_error:
  assumes "0 < q"
  shows "\<bar>to_double q - q\<bar> \<le> pow2 (binary_exponent q - 53)"
proof -
  let ?ulp = "pow2 (binary_exponent q - 52)"
  let ?r = "of_int (round_half_even (q / ?ulp)) :: rat"
  have td: "to_double q = ?r * ?ulp"
    using assms by (simp add: to_double_def Let_def)
  have "\<bar>?r * ?ulp - q\<bar> = \<bar>?r - q / ?ulp\<bar> * ?ulp"
  proof -
    have "?r * ?ulp - q = (?r - q / ?ulp) * ?ulp"
      by (simp add: field_simps less_imp_neq [OF pow2_pos, symmetric])
    then show ?thesis
      by (simp add: abs_mult)
  qed
  also have "\<dots> \<le> 1 / 2 * ?ulp"
    by (intro mult_right_mono round_half_even_error) (simp add: less_imp_le)
  also have "\<dots> = pow2 (binary_exponent q - 53)"
  proof -
    have "pow2 (binary_exponent q - 52) = pow2 (binary_exponent q - 53 + 1)" by simp
    also have "\<dots> = pow2 (binary_exponent q - 53) * 2"
      by (simp only: pow2_add) (simp add: pow2_def)
    finally show ?thesis by simp
  qed
  finally show ?thesis by (simp add: td)
qed

lemma pow2_bitlen_le:
  assumes "0 < a"
  shows "pow2 (bitlen a - 1) \<le> of_int a" and "of_int a < pow2 (bitlen a)"
proof -
  from bitlen_bounds [OF assms]
  have b: "2 ^ nat (bitlen a - 1) \<le> a" "a < 2 ^ nat (bitlen a)"
    by simp_all
  have ge: "1 \<le> bitlen a"
    using assms bitlen_eq_zero_iff [of a] bitlen_nonneg [of a] by linarith
  have "(2::rat) ^ nat (bitlen a - 1) = of_int (2 ^ nat (bitlen a - 1))"
    by simp
  also have "\<dots> \<le> of_int a"
    using b(1) by (simp only: of_int_le_iff)
  finally show "pow2 (bitlen a - 1) \<le> of_int a"
    using ge by (simp add: pow2_def)
  have "(of_int a :: rat) < of_int (2 ^ nat (bitlen a))"
    using b(2) by (simp only: of_int_less_iff)
  then show "of_int a < pow2 (bitlen a)"
    using ge by (simp add: pow2_def)
qed

lemma binary_exponent_less:
  assumes "0 < q" and "q < pow2 n"
  shows "binary_exponent q < n"
proof -
  obtain a b where ab: "quotient_of q = (a, b)"
    by (cases "quotient_of q")
  have b: "0 < b"
    using ab by (rule quotient_of_denom_pos)
  have q: "q = of_int a / of_int b"
    using ab by (rule quotient_of_div)
  have a: "0 < a"
    using assms(1) b unfolding q by (simp add: zero_less_divide_iff)
  let ?k = "bitlen a - bitlen b"
  show ?thesis
  proof (cases "pow2 ?k \<le> q")
    case True
    with assms(2) have "pow2 ?k < pow2 n" by simp
    then have "?k < n" by (rule pow2_less_cancel)
    with True show ?thesis by (simp add: binary_exponent_def ab)
  next
    case False
    have "pow2 (bitlen a - 1) \<le> of_int a"
      using a by (rule pow2_bitlen_le)
    also have "of_int a = q * of_int b"
      using b by (simp add: q)
    also have "\<dots> < pow2 n * of_int b"
      using assms(2) b by simp
    also have "\<dots> < pow2 n * pow2 (bitlen b)"
      using pow2_bitlen_le(2) [OF b] by simp
    also have "\<dots> = pow2 (n + bitlen b)"
      by (simp add: pow2_add)
    finally have "bitlen a - 1 < n + bitlen b"
      by (rule pow2_less_cancel)
    with False show ?thesis by (simp add: binary_exponent_def ab)
  qed
qed

lemma binary_exponent_of_int:
  assumes "0 < a"
  shows "binary_exponent (of_int a) = bitlen a - 1"
proof -
  have "bitlen 1 = 1" by (simp add: compute_bitlen)
  moreover have "pow2 (bitlen a - 1) \<le> of_int a"
    using assms by (rule pow2_bitlen_le)
  ultimately show ?thesis
    by (simp add: binary_exponent_def)
qed

lemma to_double_of_int:
  assumes "\<bar>m\<bar> < 2 ^ 53"
  shows "to_double (of_int m) = of_int m"
proof (cases "m = 0")
  case True
  then show ?thesis by (simp add: to_double_def)
next
  case False
  define a where "a = \<bar>m\<bar>"
  have a: "0 < a" using False by (simp add: a_def)
  have abs: "\<bar>of_int m :: rat\<bar> = of_int a" by (simp add: a_def)
  have "bitlen a \<le> 53"
    using assms by (simp add: bitlen_le_iff_power a_def)
  moreover have "1 \<le> bitlen a"
    using a bitlen_eq_zero_iff [of a] bitlen_nonneg [of a] by linarith
  ultimately have "0 \<le> 53 - bitlen a" by simp
  define j where "j = nat (53 - bitlen a)"
  have j: "bitlen a - 1 - 52 = - int j"
    using \<open>bitlen a \<le> 53\<close> by (simp add: j_def)
  have ulp: "pow2 (binary_exponent (of_int a) - 52) = 1 / 2 ^ j"
    by (simp add: binary_exponent_of_int [OF a] j pow2_def)
  have "of_int a / (1 / 2 ^ j) = (of_int (a * 2 ^ j) :: rat)"
    by simp
  then have r: "round_half_even (of_int a / (1 / 2 ^ j)) = a * 2 ^ j"
    by (simp only: round_half_even_of_int)
  have "to_double (of_int m) = sgn (of_int m) * of_int (a * 2 ^ j) * (1 / 2 ^ j)"
    using False by (simp only: to_double_def abs ulp r Let_def) simp
  also have "\<dots> = sgn (of_int m) * of_int a"
    by simp
  also have "\<dots> = of_int m"
    by (simp add: a_def sgn_if)
  finally show ?thesis .
qed

text \<open>
  The error of the decimal rounding, and the number of decimals PostgreSQL keeps for a
  quotient between 1 and 5.
\<close>

lemma round_scale_error:
  assumes "0 \<le> x"
  shows "\<bar>round_scale s x - x\<bar> \<le> 1 / (2 * 10 ^ s)"
proof (cases "x = 0")
  case True
  then show ?thesis by (simp add: round_scale_def)
next
  case False
  with assms have pos: "0 < x" by simp
  define y where "y = x * 10 ^ s"
  define N where "N = \<lfloor>y + 1 / 2\<rfloor>"
  have N: "of_int N \<le> y + 1 / 2" "y + 1 / 2 < of_int N + 1"
    unfolding N_def by linarith+
  have rs: "round_scale s x = of_int N / 10 ^ s"
    using pos by (simp add: round_scale_def y_def N_def)
  have x: "x = y / 10 ^ s"
    by (simp add: y_def)
  have "\<bar>of_int N / 10 ^ s - y / 10 ^ s\<bar> = \<bar>of_int N - y\<bar> / 10 ^ s"
    by (simp add: diff_divide_distrib [symmetric])
  also have "\<dots> \<le> (1 / 2) / 10 ^ s"
    using N by (intro divide_right_mono) (auto simp: abs_if)
  finally show ?thesis
    unfolding rs by (simp add: x [symmetric])
qed

lemma floorlog_pos: "0 < n \<Longrightarrow> 1 \<le> floorlog 10000 n"
  by (simp add: floorlog_def)

lemma select_div_scale_ge:
  assumes b: "0 < b" and ab: "b \<le> a" and a5: "a \<le> 5 * b"
  shows "16 \<le> select_div_scale a b"
proof -
  define A where "A = nat a"
  define B where "B = nat b"
  define fa where "fa = floorlog 10000 A"
  define fb where "fb = floorlog 10000 B"
  have pos: "0 < A" "0 < B" and AB: "B \<le> A" "A \<le> 5 * B"
    using b ab a5 by (simp_all add: A_def B_def)
  have a: "a = int A" "b = int B" "a \<noteq> 0" "b \<noteq> 0"
    using b ab by (simp_all add: A_def B_def)
  have bA: "10000 ^ (fa - 1) \<le> A" "A < 10000 ^ fa"
    using floorlog_bounds [of A 10000] pos by (simp_all add: fa_def)
  have bB: "10000 ^ (fb - 1) \<le> B" "B < 10000 ^ fb"
    using floorlog_bounds [of B 10000] pos by (simp_all add: fb_def)
  have f1: "1 \<le> fa" "1 \<le> fb"
    using pos floorlog_pos [of A] floorlog_pos [of B] by (simp_all add: fa_def fb_def)
  have wa: "nweight a = int fa - 1" and wb: "nweight b = int fb - 1"
    using a by (simp_all add: nweight_def fa_def fb_def)
  have na: "nat (nweight a) = fa - 1" and nb: "nat (nweight b) = fb - 1"
    using f1 by (simp_all add: wa wb)
  have da: "first_digit a = int (A div 10000 ^ (fa - 1))"
  proof -
    have "first_digit a = \<bar>a\<bar> div 10000 ^ nat (nweight a)"
      using a(3) by (simp add: first_digit_def)
    also have "\<dots> = int A div 10000 ^ (fa - 1)"
      unfolding na by (simp add: a(1))
    finally show ?thesis by (simp add: zdiv_int)
  qed
  have db: "first_digit b = int (B div 10000 ^ (fb - 1))"
  proof -
    have "first_digit b = \<bar>b\<bar> div 10000 ^ nat (nweight b)"
      using a(4) by (simp add: first_digit_def)
    also have "\<dots> = int B div 10000 ^ (fb - 1)"
      unfolding nb by (simp add: a(2))
    finally show ?thesis by (simp add: zdiv_int)
  qed
  have "(10000::nat) ^ (fa - 1) \<le> A" by (rule bA)
  also have "A \<le> 5 * B" by (rule AB)
  also have "\<dots> < 10000 * 10000 ^ fb" using bB(2) by simp
  also have "\<dots> = 10000 ^ (fb + 1)" by simp
  finally have "(10000::nat) ^ (fa - 1) < 10000 ^ (fb + 1)" .
  then have "fa - 1 < fb + 1"
    by (rule power_less_imp_less_exp [rotated]) simp
  then have le: "fa \<le> fb + 1" by simp
  have "nweight a - nweight b - (if first_digit a \<le> first_digit b then 1 else 0) \<le> 0"
  proof (cases "fa \<le> fb")
    case True
    then show ?thesis by (simp add: wa wb)
  next
    case False
    with le have eq: "fa = fb + 1" by simp
    have "A < 5 * 10000 ^ fb"
      using AB(2) bB(2) by simp
    then have d1: "A div 10000 ^ (fa - 1) < 5"
      by (simp add: eq div_less_iff_less_mult)
    have "10000 ^ fb \<le> A"
      using bA(1) by (simp add: eq)
    then have "10000 * 10000 ^ (fb - 1) \<le> 5 * B"
      using AB(2) f1(2) by (simp add: power_Suc [symmetric] del: power_Suc)
    then have "2000 * 10000 ^ (fb - 1) \<le> B"
      by simp
    then have d2: "2000 \<le> B div 10000 ^ (fb - 1)"
      by (simp add: less_eq_div_iff_mult_less_eq)
    from d1 d2 show ?thesis
      by (simp add: da db wa wb eq)
  qed
  then show ?thesis
    by (simp add: select_div_scale_def Let_def)
qed

text \<open>The average of ratings between 1 and 5, as the code returns it.\<close>

lemma sum_list_bounds:
  "list_all (\<lambda>v. 1 \<le> v \<and> v \<le> 5) vs \<Longrightarrow>
   int (length vs) \<le> sum_list vs \<and> sum_list vs \<le> 5 * int (length vs)"
  by (induction vs) auto

lemma avg_accuracy:
  assumes ne: "vs \<noteq> []" and range: "list_all (\<lambda>v. 1 \<le> v \<and> v \<le> 5) vs"
  shows "\<bar>to_double (numeric_div (sum_list vs) (int (length vs)))
           - of_int (sum_list vs) / of_nat (length vs)\<bar> \<le> 1 / 10 ^ 15"
proof -
  define n where "n = int (length vs)"
  define s where "s = sum_list vs"
  define m :: rat where "m = of_int s / of_int n"
  define sc where "sc = select_div_scale s n"
  define x where "x = round_scale sc m"
  have n: "0 < n" using ne by (simp add: n_def)
  have sn: "n \<le> s" "s \<le> 5 * n"
    using sum_list_bounds [OF range] by (simp_all add: n_def s_def)
  have m1: "1 \<le> m"
    using n sn(1) by (simp add: m_def le_divide_eq)
  have "(of_int s :: rat) \<le> of_int (5 * n)"
    using sn(2) by (simp only: of_int_le_iff)
  then have m5: "m \<le> 5"
    using n by (simp add: m_def divide_le_eq)
  have "16 \<le> sc"
    unfolding sc_def using n sn by (rule select_div_scale_ge)
  then have "(10::rat) ^ 16 \<le> 10 ^ sc"
    by (intro power_increasing) simp_all
  then have le: "1 / (2 * 10 ^ sc) \<le> 1 / (2 * (10::rat) ^ 16)"
    by (intro divide_left_mono) simp_all
  have "\<bar>x - m\<bar> \<le> 1 / (2 * 10 ^ sc)"
    unfolding x_def using m1 by (intro round_scale_error) simp
  then have e1: "\<bar>x - m\<bar> \<le> 1 / (2 * 10 ^ 16)"
    using le by (rule order_trans)
  have "(1::rat) / (2 * 10 ^ 16) \<le> 1 / 2"
    by simp
  with e1 have "\<bar>x - m\<bar> \<le> 1 / 2"
    by (rule order_trans)
  then have "x - m \<le> 1 / 2" and "m - x \<le> 1 / 2"
    by (simp_all only: abs_le_iff minus_diff_eq)
  then have xpos: "0 < x" and x8: "x < pow2 3"
    using m1 m5 by (simp_all add: pow2_def)
  have "binary_exponent x < 3"
    using xpos x8 by (rule binary_exponent_less)
  then have "pow2 (binary_exponent x - 53) \<le> pow2 (- 51)"
    by (intro pow2_mono) simp
  with to_double_error [OF xpos] have e2: "\<bar>to_double x - x\<bar> \<le> 1 / 2 ^ 51"
    by (simp add: pow2_def)
  have "\<bar>to_double x - m\<bar> \<le> \<bar>to_double x - x\<bar> + \<bar>x - m\<bar>"
    by simp
  also have "\<dots> \<le> 1 / 2 ^ 51 + 1 / (2 * 10 ^ 16)"
    using e2 e1 by (rule add_mono)
  also have "\<dots> \<le> 1 / 10 ^ 15"
    by simp
  finally show ?thesis
    by (simp add: x_def m_def sc_def n_def s_def numeric_div_def)
qed

lemma numeric_div_exact:
  assumes "b dvd a" and "b \<noteq> 0"
  shows "numeric_div a b = of_int (a div b)"
proof -
  from assms obtain k where "a = b * k" by (auto simp: dvd_def)
  with assms(2) have "(of_int a :: rat) / of_int b = of_int (a div b)"
    by simp
  then show ?thesis
    by (simp only: numeric_div_def round_scale_of_int)
qed

lemma js_or_0_JNum [simp]: "js_or_0 (JNum x) = JNum x"
  by (simp add: js_or_0_def)

lemma to_double_0 [simp]: "to_double 0 = 0"
  by (simp add: to_double_def)

lemma getStoreStats_unfold:
  "int4 sid \<Longrightarrow> getStoreStats sid d =
     Inr \<lparr>averageRating =
            JNum (if store_ratings sid d = [] then 0
                  else to_double (numeric_div (sum_list (store_ratings sid d))
                                    (int (length (store_ratings sid d))))),
          totalRatings = JNum (to_double (of_nat (length (store_ratings sid d))))\<rparr>"
  by (simp add: getStoreStats_def Let_def store_ratings_def sql_avg_def coalesce0_def js_Number_def)




section \<open>Errors of a rating submission\<close>

lemma invalid_rating_issues:
  assumes "\<not> (\<exists>q. b_rating b = JNum q \<and> 1 \<le> q \<and> q \<le> 5)"
  shows "insertRatingSchema_issues e b \<noteq> []"
  using assms by (cases "b_rating b") (auto simp: insertRatingSchema_issues_def)

lemma invalid_store_issues:
  assumes "\<not> (\<exists>q. b_storeId b = JNum q)"
  shows "insertRatingSchema_issues e b \<noteq> []"
  using assms by (cases "b_storeId b") (auto simp: insertRatingSchema_issues_def)

lemma post_ratings_invalid:
  assumes "requireAuth sess d = Inr u" and "u_role u = ''normal''"
    and "insertRatingSchema_issues e b \<noteq> []"
  shows "post_ratings e b now sess d
           = (Response 400 (ValidationErrors (insertRatingSchema_issues e b)), d)"
  using assms
  by (simp add: post_ratings_def authenticated_Inr with_role_ok post_ratings_handler_def Let_def)

lemma upsert_unknown_store:
  assumes wf: "db_wf d" and nostore: "\<not> list_ex (\<lambda>s. s_id s = sid) (stores d)"
    and range: "int4 sid" "int4 v"
  shows "\<exists>err. createOrUpdateRating
            \<lparr>ir_userId = uid, ir_storeId = of_int sid, ir_rating = of_int v\<rparr> now d
          = (Inl err, d\<lparr>ratings_seq := ratings_seq d + 1\<rparr>)"
proof -
  have "list_all (\<lambda>r. r_storeId r \<in> set (map s_id (stores d))) (ratings d)"
    using wf by (simp add: db_wf_def)
  with nostore have "\<forall>r \<in> set (ratings d). r_storeId r \<noteq> sid"
    by (fastforce simp: list_all_iff list_ex_iff)
  then have "find (\<lambda>r. rating_key r = (uid, sid)) (ratings d) = None"
    by (auto simp: find_None_iff rating_key_def)
  then show ?thesis using nostore range
    by (simp add: createOrUpdateRating_def Let_def)
qed

lemma upsert_out_of_range:
  assumes "\<not> int4 sid"
  shows "createOrUpdateRating \<lparr>ir_userId = uid, ir_storeId = of_int sid, ir_rating = q\<rparr> now d
          = (Inl InvalidInput, d)"
  using assms by (simp add: createOrUpdateRating_def pg_integer_def)

lemma out_of_range_issues:
  assumes "\<not> int4 sid" and "1 \<le> v" and "v \<le> 5"
  shows "(insertRatingSchema_issues e \<lparr>b_storeId = JNum (of_int sid), b_rating = JNum (of_int v)\<rparr>
            = []) = (\<not> zod_int_strict e)"
  using assms by (auto simp: insertRatingSchema_issues_def int4_def)

lemma post_ratings_handler_status:
  "status (fst (post_ratings_handler e b now u d)) \<in> {200, 400, 500}"
  by (simp add: post_ratings_handler_def Let_def internal_error_def split: prod.splits sum.splits)

text \<open>
  A rating that is a number between 1 and 5 but not an integer passes the schema, which
  has no integer check, and is then rejected by the database.
\<close>

lemma submit_fractional_rating:
  "fst (post_ratings test_env \<lparr>b_storeId = JNum 1, b_rating = JNum (5 / 2)\<rparr> 10
          (session_of bob) sample_db) = Response 500 (Message ''Internal server error'')"
  by code_simp




section \<open>Deleting a store\<close>

lemma getRatingsByStore_none:
  "int4 sid \<Longrightarrow> \<not> list_ex (\<lambda>r. r_storeId r = sid) (ratings d) \<Longrightarrow>
   getRatingsByStore sid d = Inr []"
proof -
  assume r: "int4 sid" and "\<not> list_ex (\<lambda>r. r_storeId r = sid) (ratings d)"
  then have "filter (\<lambda>r. r_storeId r = sid) (ratings d) = []"
    by (simp add: list_ex_iff filter_empty_conv)
  then show ?thesis
    using r by (simp add: getRatingsByStore_def List.map_filter_simps)
qed

lemma delete_store_admin:
  assumes "requireAuth sess d = Inr a" "u_role a = ''admin''"
  shows "delete_store sid sess d = delete_store_handler sid a d"
  using assms by (simp add: delete_store_def authenticated_Inr with_role_ok)




section \<open>The role a session is authorized under\<close>

lemma requireAuth_found:
  "userId sess = Some uid \<Longrightarrow> uid \<noteq> [] \<Longrightarrow> getUser uid d = Some u \<Longrightarrow>
   requireAuth sess d = Inr u"
  by (simp add: requireAuth_def)

lemma requireAuth_snapshot: "requireAuth (sess\<lparr>userRole := x\<rparr>) d = requireAuth sess d"
  by (simp add: requireAuth_def)

text \<open>
  C6, as stated, fails. The rater's session is created by a login while his role is
  \<open>normal\<close>. Before the administrator changes his role to \<open>admin\<close>, the session is
  refused on an administrator's route; after the change the same session, whose snapshot
  still says \<open>normal\<close>, is accepted there and refused on the rater's route.
\<close>

theorem role_snapshot_counterexample:
  "bob_session = \<lparr>userId = Some ''bob'', userRole = Some ''normal''\<rparr> \<and>
   status (fst (put_user_role ''bob'' (JStr ''admin'') 5 (session_of alice) sample_db)) = 200 \<and>
   status (fst (delete_store (Some 2) bob_session sample_db)) = 403 \<and>
   status (fst (delete_store (Some 2) bob_session promoted_db)) = 200 \<and>
   status (fst (post_ratings test_env \<lparr>b_storeId = JNum 2, b_rating = JNum 5\<rparr> 6
                  bob_session promoted_db)) = 403"
  by code_simp

text \<open>
  C6, amended. A request on a session whose user exists is authorized under the role in
  that user's current database row: the handler behind \<open>requireRole(roles)\<close> runs exactly
  when that role is among \<open>roles\<close>, and the outcome does not depend on the role snapshot
  stored in the session.
\<close>

theorem authorization_uses_current_role:
  assumes "userId sess = Some uid" and "uid \<noteq> []" and "getUser uid d = Some u"
  shows "authenticated (with_role roles h) sess d =
           (if u_role u \<in> set roles then h u d
            else (Response 403 (Message ''Insufficient permissions''), d)) \<and>
         authenticated (with_role roles h) (sess\<lparr>userRole := snapshot\<rparr>) d =
           authenticated (with_role roles h) sess d"
  using assms
  by (simp add: authenticated_def requireAuth_snapshot requireAuth_found with_role_def
      requireRole_def)

theorem authorization_uses_current_role_witness:
  "authenticated (with_role [''admin''] (delete_store_handler (Some 2))) bob_session promoted_db
     = delete_store_handler (Some 2) (bob\<lparr>u_role := ''admin'', u_updatedAt := 5\<rparr>) promoted_db \<and>
   authenticated (with_role [''normal''] (post_ratings_handler test_env
        \<lparr>b_storeId = JNum 2, b_rating = JNum 5\<rparr> 6)) bob_session promoted_db
     = (Response 403 (Message ''Insufficient permissions''), promoted_db)"
proof -
  have s: "userId bob_session = Some ''bob''" by code_simp
  have n: "''bob'' \<noteq> []" by simp
  have g: "getUser ''bob'' promoted_db = Some (bob\<lparr>u_role := ''admin'', u_updatedAt := 5\<rparr>)"
    by code_simp
  show ?thesis
    using authorization_uses_current_role [OF s n g, of "[''admin'']"]
      authorization_uses_current_role [OF s n g, of "[''normal'']"]
    by simp
qed

section \<open>Ratings of a store for its owner\<close>

text \<open>
  C7. An authenticated store owner who asks for the ratings of a store whose owner is
  someone else is answered with status 403 and a message, the form of the answer to a
  failed role check, and receives no rating data; the database is unchanged. The role is
  checked first: a principal who is not a store owner gets the role failure whatever the
  store parameter is.
\<close>

theorem owner_ratings_wrong_owner_denied:
  assumes auth: "requireAuth sess d = Inr p"
    and st: "getStoreById sid d = Inr (Some s)" and other: "s_ownerId s \<noteq> Some (u_id p)"
  shows "(u_role p = ''store_owner'' \<longrightarrow>
            get_owner_ratings (Some sid) sess d = (Response 403 (Message ''Access denied''), d)) \<and>
         (u_role p \<noteq> ''store_owner'' \<longrightarrow>
            (\<forall>param. get_owner_ratings param sess d =
               (Response 403 (Message ''Insufficient permissions''), d))) \<and>
         status (fst (get_owner_ratings (Some sid) sess d)) = 403"
  using assms
  by (simp add: get_owner_ratings_def authenticated_Inr with_role_def requireRole_def
      get_owner_ratings_handler_def)

theorem owner_ratings_wrong_owner_denied_witness:
  "get_owner_ratings (Some 1) (session_of dave) sample_db
     = (Response 403 (Message ''Access denied''), sample_db) \<and>
   get_owner_ratings (Some 1) (session_of bob) sample_db
     = (Response 403 (Message ''Insufficient permissions''), sample_db)"
proof -
  have a1: "requireAuth (session_of dave) sample_db = Inr dave" by code_simp
  have a2: "requireAuth (session_of bob) sample_db = Inr bob" by code_simp
  have st: "getStoreById 1 sample_db = Inr (Some (mk_store 1 (Some ''carol'')))" by code_simp
  have o1: "s_ownerId (mk_store 1 (Some ''carol'')) \<noteq> Some (u_id dave)" by code_simp
  have o2: "s_ownerId (mk_store 1 (Some ''carol'')) \<noteq> Some (u_id bob)" by code_simp
  have r1: "u_role dave = ''store_owner''" by code_simp
  have r2: "u_role bob \<noteq> ''store_owner''" by code_simp
  show ?thesis
    using owner_ratings_wrong_owner_denied [OF a1 st o1] owner_ratings_wrong_owner_denied [OF a2 st o2]
      r1 r2
    by blast
qed

section \<open>Changing the password\<close>

lemma updatePassword_wrong:
  assumes "getUser uid d = Some u" "u_password u = Some h" "\<not> bcrypt_compare e cur h"
  shows "updatePassword e uid cur new now d = (False, d)"
  using assms by (simp add: updatePassword_def)

text \<open>
  C8, as stated, fails: a password change with a wrong current password is answered with
  status 400, the status of a validation failure, not with the 403 of a permission
  failure.
\<close>

theorem wrong_current_password_counterexample:
  "u_password bob = Some ''#Secret!2'' \<and> \<not> bcrypt_compare test_env ''Wrong!pw1'' ''#Secret!2'' \<and>
   status (fst (put_password test_env \<lparr>pb_currentPassword = JStr ''Wrong!pw1'',
       pb_newPassword = JStr ''Newpass!1''\<rparr> 9 (session_of bob) sample_db)) = 400 \<and>
   status (fst (put_password test_env \<lparr>pb_currentPassword = JStr ''Wrong!pw1'',
       pb_newPassword = JStr ''Newpass!1''\<rparr> 9 (session_of bob) sample_db)) \<noteq> 403"
  by code_simp

text \<open>
  C8, amended. For an authenticated user with a stored hash, a password change whose
  current password does not verify against the hash is answered with status 400 (with
  the message that the current password is incorrect when the body passes the schema),
  and the database, the stored hash included, is unchanged.
\<close>

theorem wrong_current_password_rejected:
  assumes auth: "requireAuth sess d = Inr u" and pw: "u_password u = Some h"
    and bad: "\<not> bcrypt_compare e cur h" and body: "pb_currentPassword b = JStr cur"
  shows "\<exists>m. put_password e b now sess d = (Response 400 m, d) \<and>
           (updatePasswordSchema_issues b = [] \<longrightarrow> m = Message ''Current password is incorrect'')"
proof -
  have gu: "getUser (u_id u) d = Some u"
    using auth by (simp add: requireAuth_InrD)
  show ?thesis
    by (simp add: put_password_def authenticated_Inr [OF auth] put_password_handler_def Let_def
        body str_of_def updatePassword_wrong [OF gu pw bad])
qed

theorem wrong_current_password_rejected_witness:
  "put_password test_env \<lparr>pb_currentPassword = JStr ''Wrong!pw1'',
       pb_newPassword = JStr ''Newpass!1''\<rparr> 9 (session_of bob) sample_db
     = (Response 400 (Message ''Current password is incorrect''), sample_db)"
proof -
  have auth: "requireAuth (session_of bob) sample_db = Inr bob" by code_simp
  have pw: "u_password bob = Some ''#Secret!2''" by code_simp
  have bad: "\<not> bcrypt_compare test_env ''Wrong!pw1'' ''#Secret!2''" by code_simp
  have body: "pb_currentPassword \<lparr>pb_currentPassword = JStr ''Wrong!pw1'',
       pb_newPassword = JStr ''Newpass!1''\<rparr> = JStr ''Wrong!pw1''" by simp
  have ok: "updatePasswordSchema_issues \<lparr>pb_currentPassword = JStr ''Wrong!pw1'',
       pb_newPassword = JStr ''Newpass!1''\<rparr> = []" by code_simp
  show ?thesis
    using wrong_current_password_rejected [OF auth pw bad body, of 9] ok by auto
qed

section \<open>Registration\<close>

lemma createLocalUser_cases:
  "createLocalUser e ud newId now d = (res, d') \<Longrightarrow>
     (\<exists>err. res = Inl err \<and> d' = d) \<or>
     (\<exists>u. res = Inr u \<and> d' = d\<lparr>users := users d @ [u]\<rparr> \<and> u_id u = newId \<and>
          u_role u = iu_role ud)"
  by (auto simp: createLocalUser_def Let_def split: if_splits)

text \<open>
  C9. Whatever the request body says, a registration either is not answered with 201 and
  then adds no user and leaves the session as it was, or is answered with 201 and then
  adds exactly one user, whose role is \<open>normal\<close>, and the session carries that user's id
  and the role \<open>normal\<close>.
\<close>

theorem register_forces_normal_role:
  assumes "post_register e b newId now sess d = (resp, sess', d')"
  shows "(status resp \<noteq> 201 \<and> users d' = users d \<and> sess' = sess) \<or>
         (\<exists>u. resp = Response 201 (UserSummary newId (u_name u) (u_email u) ''normal'') \<and>
              users d' = users d @ [u] \<and> u_id u = newId \<and> u_role u = ''normal'' \<and>
              sess' = sess\<lparr>userId := Some newId, userRole := Some ''normal''\<rparr>)"
proof (cases "insertUserSchema_parse e b")
  case (Inl issues)
  then have "post_register e b newId now sess d = (Response 400 (ValidationErrors issues), sess, d)"
    by (simp add: post_register_def)
  with assms have "resp = Response 400 (ValidationErrors issues)" "sess' = sess" "d' = d"
    by simp_all
  then show ?thesis by simp
next
  case (Inr userData)
  show ?thesis
  proof (cases "getUserByEmail (iu_email userData) d")
    case (Some existing)
    with Inr have "post_register e b newId now sess d =
        (Response 400 (Message ''User already exists with this email''), sess, d)"
      by (simp add: post_register_def)
    with assms have "resp = Response 400 (Message ''User already exists with this email'')"
      "sess' = sess" "d' = d"
      by simp_all
    then show ?thesis by simp
  next
    case None
    obtain res d1 where c: "createLocalUser e (userData\<lparr>iu_role := ''normal''\<rparr>) newId now d = (res, d1)"
      by (cases "createLocalUser e (userData\<lparr>iu_role := ''normal''\<rparr>) newId now d")
    have pr: "post_register e b newId now sess d =
        (case res of
           Inl err \<Rightarrow> (internal_error, sess, d1)
         | Inr u \<Rightarrow> (Response 201 (UserSummary (u_id u) (u_name u) (u_email u) (u_role u)),
                     sess\<lparr>userId := Some (u_id u), userRole := Some (u_role u)\<rparr>, d1))"
      by (simp add: post_register_def Inr None c split: sum.splits)
    from createLocalUser_cases [OF c] show ?thesis
    proof
      assume "\<exists>err. res = Inl err \<and> d1 = d"
      then obtain err where "res = Inl err" "d1 = d" by blast
      with pr assms have "resp = internal_error" "sess' = sess" "d' = d" by simp_all
      then show ?thesis by (simp add: internal_error_def)
    next
      assume "\<exists>u. res = Inr u \<and> d1 = d\<lparr>users := users d @ [u]\<rparr> \<and> u_id u = newId \<and>
          u_role u = iu_role (userData\<lparr>iu_role := ''normal''\<rparr>)"
      then obtain u where u: "res = Inr u" "d1 = d\<lparr>users := users d @ [u]\<rparr>" "u_id u = newId"
        "u_role u = ''normal''" by auto
      with pr assms have "resp = Response 201 (UserSummary newId (u_name u) (u_email u) ''normal'')"
        "sess' = sess\<lparr>userId := Some newId, userRole := Some ''normal''\<rparr>"
        "users d' = users d @ [u]" by simp_all
      with u(3,4) show ?thesis by blast
    qed
  qed
qed

theorem register_forces_normal_role_witness:
  "status (fst (post_register test_env admin_request ''local_1'' 7 no_session sample_db)) = 201 \<and>
   (\<exists>u. users (snd (snd (post_register test_env admin_request ''local_1'' 7 no_session sample_db)))
          = users sample_db @ [u] \<and> u_role u = ''normal'') \<and>
   fst (snd (post_register test_env admin_request ''local_1'' 7 no_session sample_db))
     = \<lparr>userId = Some ''local_1'', userRole = Some ''normal''\<rparr>"
proof -
  have ok: "status (fst (post_register test_env admin_request ''local_1'' 7 no_session sample_db)) = 201"
    by code_simp
  have p: "post_register test_env admin_request ''local_1'' 7 no_session sample_db
     = (fst (post_register test_env admin_request ''local_1'' 7 no_session sample_db),
        fst (snd (post_register test_env admin_request ''local_1'' 7 no_session sample_db)),
        snd (snd (post_register test_env admin_request ''local_1'' 7 no_session sample_db)))"
    by simp
  from register_forces_normal_role [OF p] ok
  show ?thesis by (auto simp: no_session_def)
qed

section \<open>Sessions of users that no longer exist\<close>

text \<open>
  C10. When the user id stored in a session references no user, every route behind
  \<open>requireAuth\<close> answers 401 and leaves the database unchanged, whatever its handler is
  (the handler does not run); in particular each of the routes modelled here does.
\<close>

theorem stale_session_unauthenticated:
  assumes "userId sess = Some uid" and "getUser uid d = None"
  shows "status (fst (authenticated h sess d)) = 401 \<and> snd (authenticated h sess d) = d \<and>
         (status (fst (put_password e pb now sess d)) = 401 \<and> snd (put_password e pb now sess d) = d) \<and>
         (status (fst (put_user_role target role now sess d)) = 401 \<and>
            snd (put_user_role target role now sess d) = d) \<and>
         (status (fst (delete_user target sess d)) = 401 \<and> snd (delete_user target sess d) = d) \<and>
         (status (fst (delete_store param sess d)) = 401 \<and> snd (delete_store param sess d) = d) \<and>
         (status (fst (post_ratings e rb now sess d)) = 401 \<and> snd (post_ratings e rb now sess d) = d) \<and>
         (status (fst (get_owner_ratings param sess d)) = 401 \<and>
            snd (get_owner_ratings param sess d) = d)"
proof -
  have "\<exists>m. requireAuth sess d = Inl (Response 401 (Message m))"
    using assms by (simp add: requireAuth_def)
  then have "\<And>h. status (fst (authenticated h sess d)) = 401 \<and> snd (authenticated h sess d) = d"
    by (auto simp: authenticated_def)
  then show ?thesis
    by (simp add: put_password_def put_user_role_def delete_user_def delete_store_def
        post_ratings_def get_owner_ratings_def)
qed

theorem stale_session_unauthenticated_witness:
  "status (fst (delete_user ''dave'' (session_of alice) sample_db)) = 200 \<and>
   requireAuth (session_of dave) sample_db = Inr dave \<and>
   get_owner_ratings (Some 1) (session_of dave) dave_deleted_db
     = (Response 401 (Message ''User not found''), dave_deleted_db)"
proof -
  have del: "status (fst (delete_user ''dave'' (session_of alice) sample_db)) = 200" by code_simp
  have before: "requireAuth (session_of dave) sample_db = Inr dave" by code_simp
  have s: "userId (session_of dave) = Some ''dave''" by code_simp
  have g: "getUser ''dave'' dave_deleted_db = None" by code_simp
  have m: "payload (fst (get_owner_ratings (Some 1) (session_of dave) dave_deleted_db))
      = Message ''User not found''" by code_simp
  from stale_session_unauthenticated [OF s g, of _ _ _ _ _ _ "Some 1"]
  have "status (fst (get_owner_ratings (Some 1) (session_of dave) dave_deleted_db)) = 401"
    and "snd (get_owner_ratings (Some 1) (session_of dave) dave_deleted_db) = dave_deleted_db"
    by blast+
  with m have "get_owner_ratings (Some 1) (session_of dave) dave_deleted_db
     = (Response 401 (Message ''User not found''), dave_deleted_db)"
    by (cases "get_owner_ratings (Some 1) (session_of dave) dave_deleted_db";
        cases "fst (get_owner_ratings (Some 1) (session_of dave) dave_deleted_db)") auto
  with del before show ?thesis by blast
qed

end
